theory Spec2Isabelle
  imports Main "HOL-Library.Word"
begin

section \<open>The IPv6 end point demultiplexer (ipv6-end-point-demux.cc)\<close>

subsection \<open>Data model\<close>

text \<open>
  An \<open>Ipv6Address\<close> is 16 bytes compared bytewise; ports are \<open>uint16_t\<close>.
  \<open>Ptr<NetDevice>\<close> and \<open>Ptr<Ipv6Interface>\<close> are nullable references: \<open>None\<close> is
  \<open>nullptr\<close>, a device is known by its identity only.
\<close>

type_synonym Ipv6Address = "128 word"
type_synonym port = "16 word"
type_synonym NetDevice = nat

text \<open>
  Modelled from the spec: the wildcard address constant of the addressing subsystem
  (ipv6-address.cc is not among the sources), the well-known \<open>::\<close>. The demultiplexer
  only compares with it.
\<close>

definition GetAny :: Ipv6Address where
  "GetAny = 0"

text \<open>
  Modelled from the spec: the all-routers multicast address constant of the addressing
  subsystem (ipv6-address.cc is not among the sources), the well-known \<open>ff02::2\<close>.
\<close>

definition GetAllRoutersMulticast :: Ipv6Address where
  "GetAllRoutersMulticast = 0xff020000000000000000000000000002"

text \<open>
  Modelled from the spec: the interface handle of an arrival (ipv6-interface.h is not among
  the sources); the demultiplexer reads nothing of it but its device.
\<close>

datatype Ipv6Interface = Ipv6Interface (GetDevice: "NetDevice option")

text \<open>
  Modelled from the spec: the Endpoint data holder (ipv6-end-point.h is not among the
  sources), plain storage of the local pair, the peer pair, the optional bound device and
  the receive-enabled flag.
\<close>

record Ipv6EndPoint =
  m_localAddr :: Ipv6Address
  m_localPort :: port
  m_peerAddr :: Ipv6Address
  m_peerPort :: port
  m_boundnetdevice :: "NetDevice option"
  m_rxEnabled :: bool

text \<open>
  Modelled from the spec: the constructor \<open>Ipv6EndPoint(addr, port)\<close> (ipv6-end-point.cc
  is not among the sources): a new end point has the given local pair, a wildcard peer,
  no bound device, and can receive.
\<close>

definition new_Ipv6EndPoint :: "Ipv6Address \<Rightarrow> port \<Rightarrow> Ipv6EndPoint" where
  "new_Ipv6EndPoint addr prt =
     \<lparr>m_localAddr = addr, m_localPort = prt, m_peerAddr = GetAny, m_peerPort = 0,
      m_boundnetdevice = None, m_rxEnabled = True\<rparr>"

text \<open>
  Modelled from the spec: the peer setter \<open>SetPeer(addr, port)\<close> (ipv6-end-point.cc is
  not among the sources), which stores the peer pair and nothing else.
\<close>

definition SetPeer :: "Ipv6Address \<Rightarrow> port \<Rightarrow> Ipv6EndPoint \<Rightarrow> Ipv6EndPoint" where
  "SetPeer addr prt e = e\<lparr>m_peerAddr := addr, m_peerPort := prt\<rparr>"

text \<open>
  The demultiplexer keeps \<open>std::list<Ipv6EndPoint*>\<close> and owns every pointee. An element
  of the list is the pointer (an address, compared by \<open>==\<close> in \<open>DeAllocate\<close>) together
  with the object it points to.
\<close>

type_synonym EndPointPtr = "nat \<times> Ipv6EndPoint"
type_synonym EndPoints = "EndPointPtr list"

abbreviation GetLocalAddress :: "EndPointPtr \<Rightarrow> Ipv6Address" where
  "GetLocalAddress p \<equiv> m_localAddr (snd p)"

abbreviation GetLocalPort :: "EndPointPtr \<Rightarrow> port" where
  "GetLocalPort p \<equiv> m_localPort (snd p)"

abbreviation GetPeerAddress :: "EndPointPtr \<Rightarrow> Ipv6Address" where
  "GetPeerAddress p \<equiv> m_peerAddr (snd p)"

abbreviation GetPeerPort :: "EndPointPtr \<Rightarrow> port" where
  "GetPeerPort p \<equiv> m_peerPort (snd p)"

abbreviation GetBoundNetDevice :: "EndPointPtr \<Rightarrow> NetDevice option" where
  "GetBoundNetDevice p \<equiv> m_boundnetdevice (snd p)"

abbreviation IsRxEnabled :: "EndPointPtr \<Rightarrow> bool" where
  "IsRxEnabled p \<equiv> m_rxEnabled (snd p)"

record Ipv6EndPointDemux =
  m_endPoints :: EndPoints
  m_ephemeral :: port
  m_portFirst :: port
  m_portLast :: port

text \<open>The constructor.\<close>

definition Ipv6EndPointDemux_init :: Ipv6EndPointDemux where
  "Ipv6EndPointDemux_init =
     \<lparr>m_endPoints = [], m_ephemeral = 49152, m_portFirst = 49152, m_portLast = 65535\<rparr>"

subsection \<open>Lookup on arrival\<close>

text \<open>
  One round of the loop of \<open>Lookup\<close>: the three \<open>continue\<close> tests on the receive flag,
  the local port and the bound device, the local and peer classification, and the four
  \<open>push_back\<close>s, which are not exclusive.
\<close>

type_synonym buckets = "EndPoints \<times> EndPoints \<times> EndPoints \<times> EndPoints"

definition Lookup_step ::
  "Ipv6Address \<Rightarrow> port \<Rightarrow> Ipv6Address \<Rightarrow> port \<Rightarrow> Ipv6Interface option \<Rightarrow>
   EndPointPtr \<Rightarrow> buckets \<Rightarrow> buckets" where
  "Lookup_step daddr dport saddr sport incomingInterface endP acc =
     (case acc of (retval1, retval2, retval3, retval4) \<Rightarrow>
      if \<not> IsRxEnabled endP then acc
      else if GetLocalPort endP \<noteq> dport then acc
      else if GetBoundNetDevice endP \<noteq> None \<and>
              (case incomingInterface of
                 None \<Rightarrow> True
               | Some iface \<Rightarrow> GetBoundNetDevice endP \<noteq> GetDevice iface) then acc
      else
        let localAddressMatchesWildCard = (GetLocalAddress endP = GetAny);
            localAddressMatchesExact = (GetLocalAddress endP = daddr);
            localAddressMatchesAllRouters = (GetLocalAddress endP = GetAllRoutersMulticast)
        in
        if \<not> (localAddressMatchesExact \<or> localAddressMatchesWildCard) then acc
        else
          let remotePeerMatchesExact = (GetPeerPort endP = sport);
              remotePeerMatchesWildCard = (GetPeerPort endP = 0);
              remoteAddressMatchesExact = (GetPeerAddress endP = saddr);
              remoteAddressMatchesWildCard = (GetPeerAddress endP = GetAny)
          in
          if \<not> (remotePeerMatchesExact \<or> remotePeerMatchesWildCard) then acc
          else if \<not> (remoteAddressMatchesExact \<or> remoteAddressMatchesWildCard) then acc
          else
            (if localAddressMatchesWildCard \<and> remotePeerMatchesWildCard \<and>
                remoteAddressMatchesWildCard
             then retval1 @ [endP] else retval1,
             if (localAddressMatchesExact \<or> localAddressMatchesAllRouters) \<and>
                remotePeerMatchesWildCard \<and> remoteAddressMatchesWildCard
             then retval2 @ [endP] else retval2,
             if localAddressMatchesWildCard \<and> remotePeerMatchesExact \<and>
                remoteAddressMatchesExact
             then retval3 @ [endP] else retval3,
             if localAddressMatchesExact \<and> remotePeerMatchesExact \<and>
                remoteAddressMatchesExact
             then retval4 @ [endP] else retval4))"

fun Lookup_loop ::
  "Ipv6Address \<Rightarrow> port \<Rightarrow> Ipv6Address \<Rightarrow> port \<Rightarrow> Ipv6Interface option \<Rightarrow>
   EndPoints \<Rightarrow> buckets \<Rightarrow> buckets" where
  "Lookup_loop daddr dport saddr sport incomingInterface [] acc = acc"
| "Lookup_loop daddr dport saddr sport incomingInterface (endP # rest) acc =
     Lookup_loop daddr dport saddr sport incomingInterface rest
       (Lookup_step daddr dport saddr sport incomingInterface endP acc)"

text \<open>The choice of the most exact non-empty list, before the assertion.\<close>

definition Lookup_retval :: "buckets \<Rightarrow> EndPoints" where
  "Lookup_retval acc =
     (case acc of (retval1, retval2, retval3, retval4) \<Rightarrow>
      if retval4 \<noteq> [] then retval4
      else if retval3 \<noteq> [] then retval3
      else if retval2 \<noteq> [] then retval2
      else retval1)"

text \<open>
  \<open>NS_ABORT_MSG_IF\<close> ends the process: \<open>Lookup\<close> returns a list only when the assertion
  passes.
\<close>

datatype error = TooManyEndpoints

definition Lookup ::
  "Ipv6EndPointDemux \<Rightarrow> Ipv6Address \<Rightarrow> port \<Rightarrow> Ipv6Address \<Rightarrow> port \<Rightarrow>
   Ipv6Interface option \<Rightarrow> error + EndPoints" where
  "Lookup s daddr dport saddr sport incomingInterface =
     (let retval = Lookup_retval
            (Lookup_loop daddr dport saddr sport incomingInterface (m_endPoints s)
               ([], [], [], []))
      in if length retval > 1 then Inl TooManyEndpoints else Inr retval)"

subsection \<open>SimpleLookup\<close>

text \<open>
  The loop of \<open>SimpleLookup\<close> with its two locals, \<open>genericity\<close> (at most 3, so no
  \<open>uint32_t\<close> arithmetic wraps) and \<open>generic\<close>; the exact match returns from inside
  the loop.
\<close>

fun SimpleLookup_loop ::
  "Ipv6Address \<Rightarrow> port \<Rightarrow> Ipv6Address \<Rightarrow> port \<Rightarrow> EndPoints \<Rightarrow> nat \<Rightarrow>
   EndPointPtr option \<Rightarrow> EndPointPtr option" where
  "SimpleLookup_loop dst dport src sport [] genericity generic = generic"
| "SimpleLookup_loop dst dport src sport (i # rest) genericity generic =
     (if GetLocalPort i \<noteq> dport
      then SimpleLookup_loop dst dport src sport rest genericity generic
      else if GetLocalAddress i = dst \<and> GetPeerPort i = sport \<and> GetPeerAddress i = src
      then Some i
      else
        let tmp = (if GetLocalAddress i = GetAny then 1 else 0) +
                  (if GetPeerAddress i = GetAny then 1 else 0)
        in if tmp < genericity
           then SimpleLookup_loop dst dport src sport rest tmp (Some i)
           else SimpleLookup_loop dst dport src sport rest genericity generic)"

definition SimpleLookup ::
  "Ipv6EndPointDemux \<Rightarrow> Ipv6Address \<Rightarrow> port \<Rightarrow> Ipv6Address \<Rightarrow> port \<Rightarrow>
   EndPointPtr option" where
  "SimpleLookup s dst dport src sport =
     SimpleLookup_loop dst dport src sport (m_endPoints s) 3 None"

subsection \<open>Allocation and release\<close>

fun LookupPortLocal_loop :: "EndPoints \<Rightarrow> port \<Rightarrow> bool" where
  "LookupPortLocal_loop [] prt = False"
| "LookupPortLocal_loop (i # rest) prt =
     (if GetLocalPort i = prt then True else LookupPortLocal_loop rest prt)"

definition LookupPortLocal :: "Ipv6EndPointDemux \<Rightarrow> port \<Rightarrow> bool" where
  "LookupPortLocal s prt = LookupPortLocal_loop (m_endPoints s) prt"

fun LookupLocal_loop :: "EndPoints \<Rightarrow> NetDevice option \<Rightarrow> Ipv6Address \<Rightarrow> port \<Rightarrow> bool" where
  "LookupLocal_loop [] boundNetDevice addr prt = False"
| "LookupLocal_loop (i # rest) boundNetDevice addr prt =
     (if GetLocalPort i = prt \<and> GetLocalAddress i = addr \<and>
         GetBoundNetDevice i = boundNetDevice
      then True else LookupLocal_loop rest boundNetDevice addr prt)"

definition LookupLocal ::
  "Ipv6EndPointDemux \<Rightarrow> NetDevice option \<Rightarrow> Ipv6Address \<Rightarrow> port \<Rightarrow> bool" where
  "LookupLocal s boundNetDevice addr prt =
     LookupLocal_loop (m_endPoints s) boundNetDevice addr prt"

text \<open>
  The \<open>do ... while\<close> of \<open>AllocateEphemeralPort\<close>. \<open>count\<close> is an \<open>int\<close>, tested
  before it is decremented; \<open>++port\<close> wraps at 16 bits. \<open>None\<close> is the \<open>return 0\<close>
  from inside the loop, which leaves \<open>m_ephemeral\<close> as it was.
\<close>

function AllocateEphemeralPort_loop ::
  "EndPoints \<Rightarrow> port \<Rightarrow> port \<Rightarrow> port \<Rightarrow> int \<Rightarrow> port option" where
  "AllocateEphemeralPort_loop eps portFirst portLast prt count =
     (if count < 0 then None
      else
        let prt1 = prt + 1;
            prt2 = (if prt1 < portFirst \<or> prt1 > portLast then portFirst else prt1)
        in if LookupPortLocal_loop eps prt2
           then AllocateEphemeralPort_loop eps portFirst portLast prt2 (count - 1)
           else Some prt2)"
  by pat_completeness auto
termination
  by (relation "measure (\<lambda>(eps, portFirst, portLast, prt, count). nat (count + 1))") auto

declare AllocateEphemeralPort_loop.simps [simp del]

definition AllocateEphemeralPort :: "Ipv6EndPointDemux \<Rightarrow> port \<times> Ipv6EndPointDemux" where
  "AllocateEphemeralPort s =
     (case AllocateEphemeralPort_loop (m_endPoints s) (m_portFirst s) (m_portLast s)
             (m_ephemeral s) (uint (m_portLast s) - uint (m_portFirst s)) of
        None \<Rightarrow> (0, s)
      | Some prt \<Rightarrow> (prt, s\<lparr>m_ephemeral := prt\<rparr>))"

text \<open>
  \<open>new\<close> returns an address that no live end point has; the model takes the one after
  the largest in the list.
\<close>

definition new_ptr :: "EndPoints \<Rightarrow> nat" where
  "new_ptr eps = Suc (fold max (map fst eps) 0)"

definition push_back :: "Ipv6EndPoint \<Rightarrow> Ipv6EndPointDemux \<Rightarrow> EndPointPtr \<times> Ipv6EndPointDemux" where
  "push_back e s =
     (let endPoint = (new_ptr (m_endPoints s), e)
      in (endPoint, s\<lparr>m_endPoints := m_endPoints s @ [endPoint]\<rparr>))"

text \<open>The five overloads of \<open>Allocate\<close>; \<open>None\<close> is the \<open>nullptr\<close> they return.\<close>

definition Allocate :: "Ipv6EndPointDemux \<Rightarrow> EndPointPtr option \<times> Ipv6EndPointDemux" where
  "Allocate s =
     (case AllocateEphemeralPort s of (prt, s1) \<Rightarrow>
      if prt = 0 then (None, s1)
      else case push_back (new_Ipv6EndPoint GetAny prt) s1 of (endPoint, s2) \<Rightarrow>
        (Some endPoint, s2))"

definition Allocate_address ::
  "Ipv6EndPointDemux \<Rightarrow> Ipv6Address \<Rightarrow> EndPointPtr option \<times> Ipv6EndPointDemux" where
  "Allocate_address s address =
     (case AllocateEphemeralPort s of (prt, s1) \<Rightarrow>
      if prt = 0 then (None, s1)
      else case push_back (new_Ipv6EndPoint address prt) s1 of (endPoint, s2) \<Rightarrow>
        (Some endPoint, s2))"

definition Allocate_device_address_port ::
  "Ipv6EndPointDemux \<Rightarrow> NetDevice option \<Rightarrow> Ipv6Address \<Rightarrow> port \<Rightarrow>
   EndPointPtr option \<times> Ipv6EndPointDemux" where
  "Allocate_device_address_port s boundNetDevice address prt =
     (if LookupLocal s boundNetDevice address prt \<or> LookupLocal s None address prt
      then (None, s)
      else case push_back (new_Ipv6EndPoint address prt) s of (endPoint, s1) \<Rightarrow>
        (Some endPoint, s1))"

definition Allocate_device_port ::
  "Ipv6EndPointDemux \<Rightarrow> NetDevice option \<Rightarrow> port \<Rightarrow>
   EndPointPtr option \<times> Ipv6EndPointDemux" where
  "Allocate_device_port s boundNetDevice prt =
     Allocate_device_address_port s boundNetDevice GetAny prt"

fun Allocate_duplicate ::
  "EndPoints \<Rightarrow> NetDevice option \<Rightarrow> Ipv6Address \<Rightarrow> port \<Rightarrow> Ipv6Address \<Rightarrow> port \<Rightarrow> bool" where
  "Allocate_duplicate [] boundNetDevice localAddress localPort peerAddress peerPort = False"
| "Allocate_duplicate (i # rest) boundNetDevice localAddress localPort peerAddress peerPort =
     (if GetLocalPort i = localPort \<and> GetLocalAddress i = localAddress \<and>
         GetPeerPort i = peerPort \<and> GetPeerAddress i = peerAddress \<and>
         (GetBoundNetDevice i = boundNetDevice \<or> GetBoundNetDevice i = None)
      then True
      else Allocate_duplicate rest boundNetDevice localAddress localPort peerAddress peerPort)"

definition Allocate_device_local_peer ::
  "Ipv6EndPointDemux \<Rightarrow> NetDevice option \<Rightarrow> Ipv6Address \<Rightarrow> port \<Rightarrow> Ipv6Address \<Rightarrow> port \<Rightarrow>
   EndPointPtr option \<times> Ipv6EndPointDemux" where
  "Allocate_device_local_peer s boundNetDevice localAddress localPort peerAddress peerPort =
     (if Allocate_duplicate (m_endPoints s) boundNetDevice localAddress localPort
           peerAddress peerPort
      then (None, s)
      else case push_back (SetPeer peerAddress peerPort
                             (new_Ipv6EndPoint localAddress localPort)) s of
        (endPoint, s1) \<Rightarrow> (Some endPoint, s1))"

text \<open>\<open>DeAllocate\<close> erases the first element that is the given pointer, and stops.\<close>

fun DeAllocate_loop :: "EndPoints \<Rightarrow> EndPointPtr \<Rightarrow> EndPoints" where
  "DeAllocate_loop [] endPoint = []"
| "DeAllocate_loop (i # rest) endPoint =
     (if fst i = fst endPoint then rest else i # DeAllocate_loop rest endPoint)"

definition DeAllocate :: "Ipv6EndPointDemux \<Rightarrow> EndPointPtr \<Rightarrow> Ipv6EndPointDemux" where
  "DeAllocate s endPoint = s\<lparr>m_endPoints := DeAllocate_loop (m_endPoints s) endPoint\<rparr>"

subsection \<open>The arrival lookup as the specification words it\<close>

text \<open>
  An end point survives the scan when it can receive, has the destination port, is not
  bound to another device than the arrival's (or to any device when the arrival names no
  interface), and matches the local address, the peer port and the peer address exactly
  or by wildcard.
\<close>

definition survives ::
  "Ipv6Address \<Rightarrow> port \<Rightarrow> Ipv6Address \<Rightarrow> port \<Rightarrow> Ipv6Interface option \<Rightarrow> EndPointPtr \<Rightarrow> bool" where
  "survives destAddr destPort srcAddr srcPort incomingInterface e =
     (m_rxEnabled (snd e) \<and> m_localPort (snd e) = destPort \<and>
      (case m_boundnetdevice (snd e) of
         None \<Rightarrow> True
       | Some d \<Rightarrow> (case incomingInterface of None \<Rightarrow> False | Some iface \<Rightarrow> GetDevice iface = Some d)) \<and>
      (m_localAddr (snd e) = destAddr \<or> m_localAddr (snd e) = GetAny) \<and>
      (m_peerPort (snd e) = srcPort \<or> m_peerPort (snd e) = 0) \<and>
      (m_peerAddr (snd e) = srcAddr \<or> m_peerAddr (snd e) = GetAny))"

definition bucket1 :: "Ipv6Address \<Rightarrow> Ipv6Address \<Rightarrow> port \<Rightarrow> EndPointPtr \<Rightarrow> bool" where
  "bucket1 destAddr srcAddr srcPort e =
     (m_localAddr (snd e) = GetAny \<and> m_peerPort (snd e) = 0 \<and> m_peerAddr (snd e) = GetAny)"

definition bucket2 :: "Ipv6Address \<Rightarrow> Ipv6Address \<Rightarrow> port \<Rightarrow> EndPointPtr \<Rightarrow> bool" where
  "bucket2 destAddr srcAddr srcPort e =
     ((m_localAddr (snd e) = destAddr \<or> m_localAddr (snd e) = GetAllRoutersMulticast) \<and>
      m_peerPort (snd e) = 0 \<and> m_peerAddr (snd e) = GetAny)"

definition bucket3 :: "Ipv6Address \<Rightarrow> Ipv6Address \<Rightarrow> port \<Rightarrow> EndPointPtr \<Rightarrow> bool" where
  "bucket3 destAddr srcAddr srcPort e =
     (m_localAddr (snd e) = GetAny \<and> m_peerPort (snd e) = srcPort \<and> m_peerAddr (snd e) = srcAddr)"

definition bucket4 :: "Ipv6Address \<Rightarrow> Ipv6Address \<Rightarrow> port \<Rightarrow> EndPointPtr \<Rightarrow> bool" where
  "bucket4 destAddr srcAddr srcPort e =
     (m_localAddr (snd e) = destAddr \<and> m_peerPort (snd e) = srcPort \<and> m_peerAddr (snd e) = srcAddr)"

definition bucket_of ::
  "(Ipv6Address \<Rightarrow> Ipv6Address \<Rightarrow> port \<Rightarrow> EndPointPtr \<Rightarrow> bool) \<Rightarrow>
   Ipv6Address \<Rightarrow> port \<Rightarrow> Ipv6Address \<Rightarrow> port \<Rightarrow> Ipv6Interface option \<Rightarrow> EndPoints \<Rightarrow> EndPoints" where
  "bucket_of b destAddr destPort srcAddr srcPort incomingInterface eps =
     filter (\<lambda>e. survives destAddr destPort srcAddr srcPort incomingInterface e \<and> b destAddr srcAddr srcPort e) eps"

text \<open>The highest-numbered non-empty bucket, 4 before 3 before 2 before 1.\<close>

definition most_specific ::
  "Ipv6Address \<Rightarrow> port \<Rightarrow> Ipv6Address \<Rightarrow> port \<Rightarrow> Ipv6Interface option \<Rightarrow> EndPoints \<Rightarrow> EndPoints" where
  "most_specific destAddr destPort srcAddr srcPort incomingInterface eps =
     (if bucket_of bucket4 destAddr destPort srcAddr srcPort incomingInterface eps \<noteq> []
      then bucket_of bucket4 destAddr destPort srcAddr srcPort incomingInterface eps
      else if bucket_of bucket3 destAddr destPort srcAddr srcPort incomingInterface eps \<noteq> []
      then bucket_of bucket3 destAddr destPort srcAddr srcPort incomingInterface eps
      else if bucket_of bucket2 destAddr destPort srcAddr srcPort incomingInterface eps \<noteq> []
      then bucket_of bucket2 destAddr destPort srcAddr srcPort incomingInterface eps
      else bucket_of bucket1 destAddr destPort srcAddr srcPort incomingInterface eps)"

subsection \<open>The fast lookup as the specification words it\<close>

text \<open>
  An exact hit has the destination port and the precise tuple. Otherwise the candidates
  are the end points on the destination port, ranked by how many of their two addresses
  are the wildcard; the answer is the first in scan order among those with the fewest.
\<close>

definition exact_hit :: "Ipv6Address \<Rightarrow> port \<Rightarrow> Ipv6Address \<Rightarrow> port \<Rightarrow> EndPointPtr \<Rightarrow> bool" where
  "exact_hit dst dport src sport e =
     (m_localPort (snd e) = dport \<and> m_localAddr (snd e) = dst \<and>
      m_peerPort (snd e) = sport \<and> m_peerAddr (snd e) = src)"

definition wildcards :: "EndPointPtr \<Rightarrow> nat" where
  "wildcards e =
     (if m_localAddr (snd e) = GetAny then 1 else 0) +
     (if m_peerAddr (snd e) = GetAny then 1 else 0)"

definition fewest_wildcards :: "EndPoints \<Rightarrow> EndPointPtr option" where
  "fewest_wildcards cands =
     find (\<lambda>e. \<forall>e' \<in> set cands. wildcards e \<le> wildcards e') cands"

text \<open>The candidate the loop holds at its end, when no end point is an exact hit.\<close>

definition better :: "port \<Rightarrow> nat \<Rightarrow> EndPoints \<Rightarrow> EndPointPtr \<Rightarrow> bool" where
  "better dport g eps e =
     (m_localPort (snd e) = dport \<and> wildcards e < g \<and>
      (\<forall>e' \<in> set (filter (\<lambda>x. m_localPort (snd x) = dport) eps). wildcards e \<le> wildcards e'))"

subsection \<open>Sequences of allocation calls\<close>

text \<open>
  A call of one of the five overloads, the local port it asks for (none for the two that
  take an ephemeral port), and the demultiplexer after a sequence of calls.
\<close>

datatype allocation =
  AllocateAny
| AllocateAt_address Ipv6Address
| AllocateAt_device_port "NetDevice option" port
| AllocateAt_device_address_port "NetDevice option" Ipv6Address port
| AllocateFull "NetDevice option" Ipv6Address port Ipv6Address port

fun requested_port :: "allocation \<Rightarrow> port option" where
  "requested_port AllocateAny = None"
| "requested_port (AllocateAt_address address) = None"
| "requested_port (AllocateAt_device_port dev prt) = Some prt"
| "requested_port (AllocateAt_device_address_port dev address prt) = Some prt"
| "requested_port (AllocateFull dev localAddress localPort peerAddress peerPort) = Some localPort"

fun allocate ::
  "Ipv6EndPointDemux \<Rightarrow> allocation \<Rightarrow> EndPointPtr option \<times> Ipv6EndPointDemux" where
  "allocate s AllocateAny = Allocate s"
| "allocate s (AllocateAt_address address) = Allocate_address s address"
| "allocate s (AllocateAt_device_port dev prt) = Allocate_device_port s dev prt"
| "allocate s (AllocateAt_device_address_port dev address prt) =
     Allocate_device_address_port s dev address prt"
| "allocate s (AllocateFull dev localAddress localPort peerAddress peerPort) =
     Allocate_device_local_peer s dev localAddress localPort peerAddress peerPort"

fun allocations :: "Ipv6EndPointDemux \<Rightarrow> allocation list \<Rightarrow> Ipv6EndPointDemux" where
  "allocations s [] = s"
| "allocations s (c # cs) = allocations (snd (allocate s c)) cs"

subsection \<open>Repeated ephemeral allocation\<close>

text \<open>
  \<open>Allocate_times n\<close> calls \<open>Allocate()\<close> n times and lists what the calls return.
  \<open>range_size\<close> is the number of ports in \<open>[m_portFirst, m_portLast]\<close>.
\<close>

fun Allocate_times :: "nat \<Rightarrow> Ipv6EndPointDemux \<Rightarrow> EndPointPtr option list \<times> Ipv6EndPointDemux" where
  "Allocate_times 0 s = ([], s)"
| "Allocate_times (Suc n) s =
     (case Allocate s of (r, s1) \<Rightarrow>
      case Allocate_times n s1 of (rs, s2) \<Rightarrow> (r # rs, s2))"

definition range_size :: "Ipv6EndPointDemux \<Rightarrow> nat" where
  "range_size s =
     (if m_portFirst s \<le> m_portLast s then Suc (unat (m_portLast s) - unat (m_portFirst s))
      else 0)"

text \<open>
  The demultiplexer after k allocations from a new one, while the scan has not wrapped:
  the ports taken are the k ports after the first of the range, in order, and the last
  one taken is remembered. After the wrap every port of the range is taken.
\<close>

definition scan_state :: "port \<Rightarrow> port \<Rightarrow> nat \<Rightarrow> Ipv6EndPointDemux \<Rightarrow> bool" where
  "scan_state f l k t \<longleftrightarrow>
     m_portFirst t = f \<and> m_portLast t = l \<and> m_ephemeral t = f + of_nat k \<and>
     map GetLocalPort (m_endPoints t) = map (\<lambda>i. f + of_nat i) [1..<Suc k]"

definition exhausted :: "port \<Rightarrow> port \<Rightarrow> Ipv6EndPointDemux \<Rightarrow> bool" where
  "exhausted f l t \<longleftrightarrow>
     m_portFirst t = f \<and> m_portLast t = l \<and>
     (\<forall>q. f \<le> q \<and> q \<le> l \<longrightarrow> LookupPortLocal_loop (m_endPoints t) q)"

section \<open>Properties\<close>

subsection \<open>The loop of Lookup fills the four buckets\<close>

lemma Lookup_step_buckets:
  "Lookup_step da dp sa sp ifc e (r1, r2, r3, r4) =
     (r1 @ bucket_of bucket1 da dp sa sp ifc [e],
      r2 @ bucket_of bucket2 da dp sa sp ifc [e],
      r3 @ bucket_of bucket3 da dp sa sp ifc [e],
      r4 @ bucket_of bucket4 da dp sa sp ifc [e])"
  by (auto simp add: Lookup_step_def bucket_of_def survives_def bucket1_def bucket2_def
      bucket3_def bucket4_def Let_def split: option.splits)

lemma Lookup_loop_buckets:
  "Lookup_loop da dp sa sp ifc eps (r1, r2, r3, r4) =
     (r1 @ bucket_of bucket1 da dp sa sp ifc eps,
      r2 @ bucket_of bucket2 da dp sa sp ifc eps,
      r3 @ bucket_of bucket3 da dp sa sp ifc eps,
      r4 @ bucket_of bucket4 da dp sa sp ifc eps)"
proof (induction eps arbitrary: r1 r2 r3 r4)
  case Nil
  show ?case by (simp add: bucket_of_def)
next
  case (Cons e eps)
  have split: "\<And>b. bucket_of b da dp sa sp ifc (e # eps) =
      bucket_of b da dp sa sp ifc [e] @ bucket_of b da dp sa sp ifc eps"
    by (simp add: bucket_of_def)
  show ?case
    by (simp only: Lookup_loop.simps Lookup_step_buckets Cons.IH split append_assoc)
qed


lemma Lookup_most_specific:
  "Lookup s da dp sa sp ifc =
     (if length (most_specific da dp sa sp ifc (m_endPoints s)) > 1 then Inl TooManyEndpoints
      else Inr (most_specific da dp sa sp ifc (m_endPoints s)))"
  by (simp add: Lookup_def Lookup_loop_buckets Lookup_retval_def most_specific_def Let_def)

lemma filter_single_of_distinct:
  assumes "distinct xs" and "{x \<in> set xs. P x} = {y}"
  shows "filter P xs = [y]"
proof -
  have d: "distinct (filter P xs)"
    using assms(1) by simp
  have s: "set (filter P xs) = {y}"
    using assms(2) by simp
  show ?thesis
  proof (cases "filter P xs")
    case Nil
    with s show ?thesis by simp
  next
    case (Cons a as)
    with d s have "a = y" and "set as \<subseteq> {y}" and "y \<notin> set as"
      by auto
    then have "as = []"
      by (cases as) auto
    with Cons \<open>a = y\<close> show ?thesis by simp
  qed
qed

lemma scenario_bucket4:
  assumes A: "A \<noteq> GetAny" and BQ: "\<not> (B = GetAny \<and> Q = 0)"
    and d: "distinct eps"
    and eps: "set eps =
      {(p1, new_Ipv6EndPoint GetAny P), (p2, new_Ipv6EndPoint A P),
       (p3, SetPeer B Q (new_Ipv6EndPoint GetAny P)),
       (p4, SetPeer B Q (new_Ipv6EndPoint A P))}"
  shows "bucket_of bucket4 A P B Q ifc eps = [(p4, SetPeer B Q (new_Ipv6EndPoint A P))]"
proof -
  define hit where "hit = (\<lambda>x. survives A P B Q ifc x \<and> bucket4 A B Q x)"
  have n1: "\<not> hit (p1, new_Ipv6EndPoint GetAny P)"
    using A by (auto simp add: hit_def bucket4_def new_Ipv6EndPoint_def)
  have n2: "\<not> hit (p2, new_Ipv6EndPoint A P)"
    using BQ by (auto simp add: hit_def bucket4_def new_Ipv6EndPoint_def)
  have n3: "\<not> hit (p3, SetPeer B Q (new_Ipv6EndPoint GetAny P))"
    using A by (auto simp add: hit_def bucket4_def new_Ipv6EndPoint_def SetPeer_def)
  have y4: "hit (p4, SetPeer B Q (new_Ipv6EndPoint A P))"
    by (simp add: hit_def survives_def bucket4_def new_Ipv6EndPoint_def SetPeer_def)
  have "{x \<in> set eps. hit x} = {(p4, SetPeer B Q (new_Ipv6EndPoint A P))}"
    unfolding eps using n1 n2 n3 y4 by blast
  from filter_single_of_distinct [OF d this] show ?thesis
    by (simp add: bucket_of_def hit_def)
qed

text \<open>
  C1: for every collection and every arrival, the loop of \<open>Lookup\<close> puts each surviving
  end point into the buckets the specification words (1: local wildcard and both peer
  fields wildcard; 2: local exact or all-routers and both peer fields wildcard; 3: local
  wildcard and both peer fields exact; 4: all exact), and \<open>Lookup\<close> answers with the
  highest-numbered non-empty bucket, which it returns unless the assertion on its size
  fires. In particular, with the four end points (any, P), (A, P), (any, P, peer B:Q) and
  (A, P, peer B:Q) in any order, A not the wildcard and B:Q not the wildcard peer, the
  arrival (A, P, B, Q) returns the fully specified end point only.
\<close>

theorem Lookup_returns_most_specific_bucket:
  "Lookup_loop da dp sa sp ifc (m_endPoints s) ([], [], [], []) =
     (bucket_of bucket1 da dp sa sp ifc (m_endPoints s),
      bucket_of bucket2 da dp sa sp ifc (m_endPoints s),
      bucket_of bucket3 da dp sa sp ifc (m_endPoints s),
      bucket_of bucket4 da dp sa sp ifc (m_endPoints s)) \<and>
   Lookup s da dp sa sp ifc =
     (if length (most_specific da dp sa sp ifc (m_endPoints s)) > 1 then Inl TooManyEndpoints
      else Inr (most_specific da dp sa sp ifc (m_endPoints s))) \<and>
   (A \<noteq> GetAny \<and> \<not> (B = GetAny \<and> Q = 0) \<and>
    distinct (m_endPoints t) \<and>
    set (m_endPoints t) =
      {(p1, new_Ipv6EndPoint GetAny P), (p2, new_Ipv6EndPoint A P),
       (p3, SetPeer B Q (new_Ipv6EndPoint GetAny P)),
       (p4, SetPeer B Q (new_Ipv6EndPoint A P))} \<longrightarrow>
    Lookup t A P B Q ifc' = Inr [(p4, SetPeer B Q (new_Ipv6EndPoint A P))])"
proof (intro conjI impI)
  show "Lookup_loop da dp sa sp ifc (m_endPoints s) ([], [], [], []) =
     (bucket_of bucket1 da dp sa sp ifc (m_endPoints s),
      bucket_of bucket2 da dp sa sp ifc (m_endPoints s),
      bucket_of bucket3 da dp sa sp ifc (m_endPoints s),
      bucket_of bucket4 da dp sa sp ifc (m_endPoints s))"
    by (simp add: Lookup_loop_buckets)
  show "Lookup s da dp sa sp ifc =
     (if length (most_specific da dp sa sp ifc (m_endPoints s)) > 1 then Inl TooManyEndpoints
      else Inr (most_specific da dp sa sp ifc (m_endPoints s)))"
    by (rule Lookup_most_specific)
next
  assume h: "A \<noteq> GetAny \<and> \<not> (B = GetAny \<and> Q = 0) \<and>
    distinct (m_endPoints t) \<and>
    set (m_endPoints t) =
      {(p1, new_Ipv6EndPoint GetAny P), (p2, new_Ipv6EndPoint A P),
       (p3, SetPeer B Q (new_Ipv6EndPoint GetAny P)),
       (p4, SetPeer B Q (new_Ipv6EndPoint A P))}"
  then have "bucket_of bucket4 A P B Q ifc' (m_endPoints t) =
      [(p4, SetPeer B Q (new_Ipv6EndPoint A P))]"
    by (intro scenario_bucket4) simp_all
  then show "Lookup t A P B Q ifc' = Inr [(p4, SetPeer B Q (new_Ipv6EndPoint A P))]"
    by (simp add: Lookup_most_specific most_specific_def)
qed

theorem Lookup_returns_most_specific_bucket_witness:
  "(0x20010db8000000000000000000000001 :: Ipv6Address) \<noteq> GetAny \<and>
   Lookup
     (Ipv6EndPointDemux_init\<lparr>m_endPoints :=
        [(1, new_Ipv6EndPoint GetAny 80),
         (2, new_Ipv6EndPoint 0x20010db8000000000000000000000001 80),
         (3, SetPeer 0x20010db8000000000000000000000002 1234 (new_Ipv6EndPoint GetAny 80)),
         (4, SetPeer 0x20010db8000000000000000000000002 1234
               (new_Ipv6EndPoint 0x20010db8000000000000000000000001 80))]\<rparr>)
     0x20010db8000000000000000000000001 80 0x20010db8000000000000000000000002 1234 None =
   Inr [(4, SetPeer 0x20010db8000000000000000000000002 1234
               (new_Ipv6EndPoint 0x20010db8000000000000000000000001 80))]"
proof -
  let ?A = "0x20010db8000000000000000000000001 :: Ipv6Address"
  let ?B = "0x20010db8000000000000000000000002 :: Ipv6Address"
  let ?eps = "[(1, new_Ipv6EndPoint GetAny 80), (2, new_Ipv6EndPoint ?A 80),
         (3, SetPeer ?B 1234 (new_Ipv6EndPoint GetAny 80)),
         (4, SetPeer ?B 1234 (new_Ipv6EndPoint ?A 80))]"
  let ?t = "Ipv6EndPointDemux_init\<lparr>m_endPoints := ?eps\<rparr>"
  have A: "?A \<noteq> GetAny"
    by (simp add: GetAny_def)
  have h: "?A \<noteq> GetAny \<and> \<not> (?B = GetAny \<and> (1234 :: port) = 0) \<and>
    distinct (m_endPoints ?t) \<and>
    set (m_endPoints ?t) =
      {(1, new_Ipv6EndPoint GetAny 80), (2, new_Ipv6EndPoint ?A 80),
       (3, SetPeer ?B 1234 (new_Ipv6EndPoint GetAny 80)),
       (4, SetPeer ?B 1234 (new_Ipv6EndPoint ?A 80))}"
    by (simp add: GetAny_def)
  have "Lookup ?t ?A 80 ?B 1234 None = Inr [(4, SetPeer ?B 1234 (new_Ipv6EndPoint ?A 80))]"
    using Lookup_returns_most_specific_bucket
      [where A = ?A and B = ?B and Q = 1234 and P = 80 and t = ?t and ifc' = None
         and ?p1.0 = 1 and ?p2.0 = 2 and ?p3.0 = 3 and ?p4.0 = 4] h
    by blast
  with A show ?thesis by blast
qed


subsection \<open>What Lookup can return\<close>

lemma most_specific_survives:
  "e \<in> set (most_specific da dp sa sp ifc eps) \<Longrightarrow>
     e \<in> set eps \<and> survives da dp sa sp ifc e"
  by (auto simp add: most_specific_def bucket_of_def split: if_splits)

lemma Lookup_Inr_survives:
  assumes "Lookup s da dp sa sp ifc = Inr r" and "e \<in> set r"
  shows "e \<in> set (m_endPoints s) \<and> survives da dp sa sp ifc e"
proof -
  from assms(1) have "r = most_specific da dp sa sp ifc (m_endPoints s)"
    by (simp add: Lookup_most_specific split: if_splits)
  with assms(2) show ?thesis
    by (simp add: most_specific_survives)
qed

text \<open>
  C2: \<open>Lookup\<close> returns at most one end point. It stops on the assertion exactly when
  the most specific non-empty bucket holds more than one end point, and every list it
  does return has length 0 or 1.
\<close>

theorem Lookup_at_most_one:
  "(\<forall>r. Lookup s da dp sa sp ifc = Inr r \<longrightarrow> length r \<le> 1) \<and>
   (Lookup s da dp sa sp ifc = Inl TooManyEndpoints \<longleftrightarrow>
      1 < length (most_specific da dp sa sp ifc (m_endPoints s)))"
  by (auto simp add: Lookup_most_specific)

theorem Lookup_at_most_one_witness:
  "Lookup (Ipv6EndPointDemux_init\<lparr>m_endPoints := [(1, new_Ipv6EndPoint GetAny 80)]\<rparr>)
     5 80 6 1234 None = Inr [(1, new_Ipv6EndPoint GetAny 80)] \<and>
   length [(1 :: nat, new_Ipv6EndPoint GetAny 80)] \<le> 1 \<and>
   1 < length (most_specific 5 80 6 1234 None
         [(1, new_Ipv6EndPoint GetAny 80), (2, new_Ipv6EndPoint GetAny 80)]) \<and>
   Lookup (Ipv6EndPointDemux_init\<lparr>m_endPoints :=
         [(1, new_Ipv6EndPoint GetAny 80), (2, new_Ipv6EndPoint GetAny 80)]\<rparr>)
     5 80 6 1234 None = Inl TooManyEndpoints"
proof -
  let ?e = "new_Ipv6EndPoint GetAny 80"
  let ?s1 = "Ipv6EndPointDemux_init\<lparr>m_endPoints := [(1, ?e)]\<rparr>"
  let ?s2 = "Ipv6EndPointDemux_init\<lparr>m_endPoints := [(1, ?e), (2, ?e)]\<rparr>"
  have one: "Lookup ?s1 5 80 6 1234 None = Inr [(1, ?e)]"
    by (simp add: Lookup_def Lookup_step_def Lookup_retval_def new_Ipv6EndPoint_def GetAny_def
        GetAllRoutersMulticast_def)
  have two: "1 < length (most_specific 5 80 6 1234 None [(1, ?e), (2, ?e)])"
    by (simp add: most_specific_def bucket_of_def survives_def bucket1_def bucket2_def
        bucket3_def bucket4_def new_Ipv6EndPoint_def GetAny_def GetAllRoutersMulticast_def)
  from Lookup_at_most_one [of ?s1 5 80 6 1234 None] one
  have "length [(1 :: nat, ?e)] \<le> 1"
    by blast
  moreover from Lookup_at_most_one [of ?s2 5 80 6 1234 None] two
  have "Lookup ?s2 5 80 6 1234 None = Inl TooManyEndpoints"
    by simp
  ultimately show ?thesis
    using one two by blast
qed

text \<open>
  C6: an end point bound to a device is never in the result of \<open>Lookup\<close> when the
  arrival names no incoming interface or an interface of another device, whatever its
  addresses and ports are.
\<close>

theorem Lookup_device_scoping:
  assumes "GetBoundNetDevice e = Some d"
    and "ifc = None \<or> (\<exists>iface. ifc = Some iface \<and> GetDevice iface \<noteq> Some d)"
  shows "\<forall>r. Lookup s da dp sa sp ifc = Inr r \<longrightarrow> e \<notin> set r"
proof (intro allI impI notI)
  fix r
  assume "Lookup s da dp sa sp ifc = Inr r" and "e \<in> set r"
  then have "survives da dp sa sp ifc e"
    by (simp add: Lookup_Inr_survives)
  with assms show False
    by (auto simp add: survives_def split: option.splits)
qed

theorem Lookup_device_scoping_witness:
  "GetBoundNetDevice (1, (new_Ipv6EndPoint 5 80)\<lparr>m_boundnetdevice := Some 1\<rparr>) = Some 1 \<and>
   GetDevice (Ipv6Interface (Some 2)) \<noteq> Some 1 \<and>
   Lookup (Ipv6EndPointDemux_init\<lparr>m_endPoints :=
        [(1, (new_Ipv6EndPoint 5 80)\<lparr>m_boundnetdevice := Some 1\<rparr>)]\<rparr>)
     5 80 6 1234 (Some (Ipv6Interface (Some 2))) = Inr [] \<and>
   (1, (new_Ipv6EndPoint 5 80)\<lparr>m_boundnetdevice := Some 1\<rparr>) \<notin> set ([] :: EndPoints)"
proof -
  let ?e = "(1 :: nat, (new_Ipv6EndPoint 5 80)\<lparr>m_boundnetdevice := Some 1\<rparr>)"
  let ?s = "Ipv6EndPointDemux_init\<lparr>m_endPoints := [?e]\<rparr>"
  let ?ifc = "Some (Ipv6Interface (Some 2))"
  have b: "GetBoundNetDevice ?e = Some 1"
    by simp
  have i: "?ifc = None \<or> (\<exists>iface. ?ifc = Some iface \<and> GetDevice iface \<noteq> Some 1)"
    by simp
  have l: "Lookup ?s 5 80 6 1234 ?ifc = Inr []"
    by (simp add: Lookup_def Lookup_step_def Lookup_retval_def new_Ipv6EndPoint_def)
  from Lookup_device_scoping [OF b i, of ?s 5 80 6 1234] l
  have "?e \<notin> set ([] :: EndPoints)"
    by blast
  with b l show ?thesis
    by simp
qed

text \<open>
  C7: the claim is that neither \<open>Lookup\<close> nor \<open>SimpleLookup\<close> ever returns an end
  point that cannot receive. \<open>SimpleLookup\<close> does not read the flag: with a single
  disabled end point on the destination port it returns that end point.
\<close>

theorem SimpleLookup_returns_disabled_counterexample:
  "SimpleLookup (Ipv6EndPointDemux_init\<lparr>m_endPoints :=
        [(1, (new_Ipv6EndPoint GetAny 80)\<lparr>m_rxEnabled := False\<rparr>)]\<rparr>) 5 80 6 1234 =
     Some (1, (new_Ipv6EndPoint GetAny 80)\<lparr>m_rxEnabled := False\<rparr>) \<and>
   \<not> IsRxEnabled (1, (new_Ipv6EndPoint GetAny 80)\<lparr>m_rxEnabled := False\<rparr>)"
  by (simp add: SimpleLookup_def new_Ipv6EndPoint_def GetAny_def)

text \<open>
  C7, as amended: an end point whose receive flag is off is never in the result of the
  best-match \<open>Lookup\<close>, however well its tuple matches the arrival.
\<close>

theorem Lookup_skips_disabled:
  assumes "\<not> IsRxEnabled e"
  shows "\<forall>r. Lookup s da dp sa sp ifc = Inr r \<longrightarrow> e \<notin> set r"
proof (intro allI impI notI)
  fix r
  assume "Lookup s da dp sa sp ifc = Inr r" and "e \<in> set r"
  then have "survives da dp sa sp ifc e"
    by (simp add: Lookup_Inr_survives)
  with assms show False
    by (simp add: survives_def)
qed

theorem Lookup_skips_disabled_witness:
  "\<not> IsRxEnabled (1, (new_Ipv6EndPoint 5 80)\<lparr>m_rxEnabled := False\<rparr>) \<and>
   Lookup (Ipv6EndPointDemux_init\<lparr>m_endPoints :=
        [(1, (new_Ipv6EndPoint 5 80)\<lparr>m_rxEnabled := False\<rparr>)]\<rparr>)
     5 80 6 1234 None = Inr [] \<and>
   (1, (new_Ipv6EndPoint 5 80)\<lparr>m_rxEnabled := False\<rparr>) \<notin> set ([] :: EndPoints)"
proof -
  let ?e = "(1 :: nat, (new_Ipv6EndPoint 5 80)\<lparr>m_rxEnabled := False\<rparr>)"
  let ?s = "Ipv6EndPointDemux_init\<lparr>m_endPoints := [?e]\<rparr>"
  have b: "\<not> IsRxEnabled ?e"
    by simp
  have l: "Lookup ?s 5 80 6 1234 None = Inr []"
    by (simp add: Lookup_def Lookup_step_def Lookup_retval_def new_Ipv6EndPoint_def)
  from Lookup_skips_disabled [OF b, of ?s 5 80 6 1234 None] l
  have "?e \<notin> set ([] :: EndPoints)"
    by blast
  with b l show ?thesis
    by simp
qed


subsection \<open>SimpleLookup\<close>

lemma SimpleLookup_loop_exact:
  "\<exists>e \<in> set eps. exact_hit dst dport src sport e \<Longrightarrow>
   SimpleLookup_loop dst dport src sport eps g c = find (exact_hit dst dport src sport) eps"
proof (induction eps arbitrary: g c)
  case Nil
  then show ?case by simp
next
  case (Cons i rest)
  show ?case
  proof (cases "exact_hit dst dport src sport i")
    case True
    then show ?thesis
      by (simp add: exact_hit_def)
  next
    case False
    with Cons.prems have "\<exists>e \<in> set rest. exact_hit dst dport src sport e"
      by auto
    with False Cons.IH show ?thesis
      by (auto simp add: exact_hit_def Let_def)
  qed
qed

lemma least_wildcards_exists:
  "xs \<noteq> [] \<Longrightarrow> \<exists>x \<in> set xs. \<forall>y \<in> set xs. wildcards x \<le> wildcards y"
proof (induction xs)
  case Nil
  then show ?case by simp
next
  case (Cons a xs)
  show ?case
  proof (cases "xs = []")
    case True
    then show ?thesis by simp
  next
    case False
    with Cons.IH obtain x where x: "x \<in> set xs" "\<forall>y \<in> set xs. wildcards x \<le> wildcards y"
      by blast
    show ?thesis
    proof (cases "wildcards a \<le> wildcards x")
      case True
      with x have "\<forall>y \<in> set (a # xs). wildcards a \<le> wildcards y"
        by auto
      then show ?thesis by auto
    next
      case False
      with x have "\<forall>y \<in> set (a # xs). wildcards x \<le> wildcards y"
        by auto
      with x(1) show ?thesis by auto
    qed
  qed
qed

lemma SimpleLookup_loop_generic:
  "\<not> (\<exists>e \<in> set eps. exact_hit dst dport src sport e) \<Longrightarrow>
   SimpleLookup_loop dst dport src sport eps g c =
     (case find (better dport g eps) eps of None \<Rightarrow> c | Some e \<Rightarrow> Some e)"
proof (induction eps arbitrary: g c)
  case Nil
  then show ?case by simp
next
  case (Cons i rest)
  let ?cands = "filter (\<lambda>x. m_localPort (snd x) = dport) rest"
  from Cons.prems have nex: "\<not> (\<exists>e \<in> set rest. exact_hit dst dport src sport e)"
    and ni: "\<not> exact_hit dst dport src sport i"
    by auto
  note IH = Cons.IH [OF nex]
  show ?case
  proof (cases "m_localPort (snd i) = dport")
    case False
    then have "better dport g (i # rest) = better dport g rest"
      by (intro ext) (simp add: better_def)
    with False have "find (better dport g (i # rest)) (i # rest) = find (better dport g rest) rest"
      by (simp add: better_def)
    with False IH show ?thesis
      by simp
  next
    case port: True
    from ni port
    have nexact: "\<not> (GetLocalAddress i = dst \<and> GetPeerPort i = sport \<and> GetPeerAddress i = src)"
      by (simp add: exact_hit_def)
    have tmp: "(if GetLocalAddress i = GetAny then 1 else 0) +
        (if GetPeerAddress i = GetAny then 1 else 0) = wildcards i"
      by (simp add: wildcards_def)
    show ?thesis
    proof (cases "wildcards i < g")
      case less: True
      have step: "SimpleLookup_loop dst dport src sport (i # rest) g c =
          SimpleLookup_loop dst dport src sport rest (wildcards i) (Some i)"
        using less by (simp add: port nexact Let_def tmp del: One_nat_def)
      show ?thesis
      proof (cases "\<forall>e' \<in> set ?cands. wildcards i \<le> wildcards e'")
        case True
        then have "better dport g (i # rest) i"
          using port less by (simp add: better_def)
        moreover have "find (better dport (wildcards i) rest) rest = None"
          using True by (fastforce simp add: find_None_iff better_def)
        ultimately show ?thesis
          unfolding step IH by simp
      next
        case False
        then obtain e' where e': "e' \<in> set ?cands" "wildcards e' < wildcards i"
          by (auto simp add: not_le)
        have agree: "better dport (wildcards i) rest e = better dport g (i # rest) e" for e
        proof (cases "GetLocalPort e = dport \<and> (\<forall>x \<in> set ?cands. wildcards e \<le> wildcards x)")
          case True
          with e'(1) have "wildcards e \<le> wildcards e'"
            by blast
          with e'(2) less have "wildcards e < wildcards i" and "wildcards e < g"
            by simp_all
          with True port show ?thesis
            by (simp add: better_def)
        next
          case False
          then show ?thesis
            by (auto simp add: better_def port)
        qed
        from e'(1) have "?cands \<noteq> []"
          by (metis empty_iff empty_set)
        from least_wildcards_exists [OF this]
        obtain m where m: "m \<in> set ?cands" "\<forall>y \<in> set ?cands. wildcards m \<le> wildcards y"
          by blast
        from m(2) e'(1) have "wildcards m \<le> wildcards e'"
          by blast
        with e'(2) have lt: "wildcards m < wildcards i"
          by simp
        from m(1) have mr: "m \<in> set rest" and pm: "GetLocalPort m = dport"
          by simp_all
        have "better dport (wildcards i) rest m"
          unfolding better_def using pm lt m(2) by blast
        with mr have "find (better dport (wildcards i) rest) rest \<noteq> None"
          unfolding find_None_iff by blast
        moreover have "\<not> better dport g (i # rest) i"
        proof
          assume "better dport g (i # rest) i"
          then have "\<forall>x \<in> set ?cands. wildcards i \<le> wildcards x"
            by (simp add: better_def port)
          with e' show False
            by (simp add: not_le [symmetric])
        qed
        ultimately show ?thesis
          unfolding step IH agree by auto
      qed
    next
      case geq: False
      have step: "SimpleLookup_loop dst dport src sport (i # rest) g c =
          SimpleLookup_loop dst dport src sport rest g c"
        using geq by (simp add: port nexact Let_def tmp del: One_nat_def)
      have agree: "\<And>e. better dport g rest e = better dport g (i # rest) e"
        using geq by (auto simp add: better_def)
      have "\<not> better dport g (i # rest) i"
        using geq by (simp add: better_def)
      then show ?thesis
        unfolding step IH agree by simp
    qed
  qed
qed

lemma wildcards_le_2: "wildcards e < 3"
  by (simp add: wildcards_def)

lemma find_filter: "find P (filter Q xs) = find (\<lambda>x. Q x \<and> P x) xs"
  by (induction xs) auto

lemma SimpleLookup_generic:
  assumes "\<not> (\<exists>e \<in> set (m_endPoints s). exact_hit dst dport src sport e)"
  shows "SimpleLookup s dst dport src sport =
    fewest_wildcards (filter (\<lambda>e. GetLocalPort e = dport) (m_endPoints s))"
proof -
  have "better dport 3 (m_endPoints s) =
      (\<lambda>x. GetLocalPort x = dport \<and>
        (\<forall>e' \<in> set (filter (\<lambda>e. GetLocalPort e = dport) (m_endPoints s)).
           wildcards x \<le> wildcards e'))"
    by (rule ext) (simp add: better_def wildcards_le_2)
  then show ?thesis
    by (simp add: SimpleLookup_def SimpleLookup_loop_generic [OF assms] fewest_wildcards_def
        find_filter split: option.splits)
qed

text \<open>
  C8: when some end point on the destination port has the precise tuple, \<open>SimpleLookup\<close>
  returns the first such end point in scan order, whatever generic candidates came
  before it; otherwise it returns, among the end points on the destination port, the
  first in scan order of those with the fewest wildcard addresses; and none when no end
  point has the destination port.
\<close>

theorem SimpleLookup_exact_then_fewest_wildcards:
  "((\<exists>e \<in> set (m_endPoints s). exact_hit dst dport src sport e) \<longrightarrow>
      SimpleLookup s dst dport src sport = find (exact_hit dst dport src sport) (m_endPoints s)) \<and>
   (\<not> (\<exists>e \<in> set (m_endPoints s). exact_hit dst dport src sport e) \<longrightarrow>
      SimpleLookup s dst dport src sport =
        fewest_wildcards (filter (\<lambda>e. GetLocalPort e = dport) (m_endPoints s))) \<and>
   (filter (\<lambda>e. GetLocalPort e = dport) (m_endPoints s) = [] \<longrightarrow>
      SimpleLookup s dst dport src sport = None)"
proof (intro conjI impI)
  assume "\<exists>e \<in> set (m_endPoints s). exact_hit dst dport src sport e"
  then show "SimpleLookup s dst dport src sport =
      find (exact_hit dst dport src sport) (m_endPoints s)"
    by (simp add: SimpleLookup_def SimpleLookup_loop_exact)
next
  assume "\<not> (\<exists>e \<in> set (m_endPoints s). exact_hit dst dport src sport e)"
  then show "SimpleLookup s dst dport src sport =
      fewest_wildcards (filter (\<lambda>e. GetLocalPort e = dport) (m_endPoints s))"
    by (rule SimpleLookup_generic)
next
  assume empty: "filter (\<lambda>e. GetLocalPort e = dport) (m_endPoints s) = []"
  then have "\<not> (\<exists>e \<in> set (m_endPoints s). exact_hit dst dport src sport e)"
    by (auto simp add: exact_hit_def filter_empty_conv)
  from SimpleLookup_generic [OF this] empty show "SimpleLookup s dst dport src sport = None"
    by (simp add: fewest_wildcards_def)
qed


theorem SimpleLookup_exact_then_fewest_wildcards_witness:
  "SimpleLookup
     (Ipv6EndPointDemux_init\<lparr>m_endPoints :=
        [(1, new_Ipv6EndPoint GetAny 80), (2, SetPeer 6 1234 (new_Ipv6EndPoint 5 80)),
         (3, SetPeer 6 1234 (new_Ipv6EndPoint 5 80))]\<rparr>) 5 80 6 1234 =
     Some (2, SetPeer 6 1234 (new_Ipv6EndPoint 5 80)) \<and>
   SimpleLookup
     (Ipv6EndPointDemux_init\<lparr>m_endPoints :=
        [(1, new_Ipv6EndPoint GetAny 80), (2, new_Ipv6EndPoint 7 80),
         (3, new_Ipv6EndPoint 8 80)]\<rparr>) 5 80 6 1234 =
     Some (2, new_Ipv6EndPoint 7 80) \<and>
   SimpleLookup
     (Ipv6EndPointDemux_init\<lparr>m_endPoints := [(1, new_Ipv6EndPoint GetAny 81)]\<rparr>) 5 80 6 1234 =
     None"
proof -
  let ?x = "SetPeer 6 1234 (new_Ipv6EndPoint 5 80)"
  let ?a = "Ipv6EndPointDemux_init\<lparr>m_endPoints :=
        [(1, new_Ipv6EndPoint GetAny 80), (2, ?x), (3, ?x)]\<rparr>"
  let ?b = "Ipv6EndPointDemux_init\<lparr>m_endPoints :=
        [(1, new_Ipv6EndPoint GetAny 80), (2, new_Ipv6EndPoint 7 80),
         (3, new_Ipv6EndPoint 8 80)]\<rparr>"
  let ?c = "Ipv6EndPointDemux_init\<lparr>m_endPoints := [(1, new_Ipv6EndPoint GetAny 81)]\<rparr>"
  have a: "\<exists>e \<in> set (m_endPoints ?a). exact_hit 5 80 6 1234 e"
    by (simp add: exact_hit_def new_Ipv6EndPoint_def SetPeer_def)
  have fa: "find (exact_hit 5 80 6 1234) (m_endPoints ?a) = Some (2, ?x)"
    by (simp add: exact_hit_def new_Ipv6EndPoint_def SetPeer_def GetAny_def)
  have b: "\<not> (\<exists>e \<in> set (m_endPoints ?b). exact_hit 5 80 6 1234 e)"
    by (simp add: exact_hit_def new_Ipv6EndPoint_def GetAny_def)
  have fb: "fewest_wildcards (filter (\<lambda>e. GetLocalPort e = 80) (m_endPoints ?b)) =
      Some (2, new_Ipv6EndPoint 7 80)"
    by (simp add: fewest_wildcards_def wildcards_def new_Ipv6EndPoint_def GetAny_def)
  have c: "filter (\<lambda>e. GetLocalPort e = 80) (m_endPoints ?c) = []"
    by (simp add: new_Ipv6EndPoint_def)
  from SimpleLookup_exact_then_fewest_wildcards [of ?a 5 80 6 1234] a fa
  have "SimpleLookup ?a 5 80 6 1234 = Some (2, ?x)"
    by presburger
  moreover from SimpleLookup_exact_then_fewest_wildcards [of ?b 5 80 6 1234] b fb
  have "SimpleLookup ?b 5 80 6 1234 = Some (2, new_Ipv6EndPoint 7 80)"
    by presburger
  moreover from SimpleLookup_exact_then_fewest_wildcards [of ?c 5 80 6 1234] c
  have "SimpleLookup ?c 5 80 6 1234 = None"
    by blast
  ultimately show ?thesis
    by blast
qed

text \<open>
  C10: \<open>SimpleLookup\<close> can return an end point that does not match the arrival. With
  a wildcard end point on port 80 and an end point bound to address 7, port 80, peer
  8:4321, the arrival (5, 80, 6, 1234) gets the second: neither its local address nor its
  peer matches, but it has no wildcard address, so it beats the wildcard end point, which
  is the one \<open>Lookup\<close> returns.
\<close>

theorem SimpleLookup_prefers_mismatching_endpoint:
  "SimpleLookup
     (Ipv6EndPointDemux_init\<lparr>m_endPoints :=
        [(1, new_Ipv6EndPoint GetAny 80), (2, SetPeer 8 4321 (new_Ipv6EndPoint 7 80))]\<rparr>)
     5 80 6 1234 = Some (2, SetPeer 8 4321 (new_Ipv6EndPoint 7 80)) \<and>
   GetLocalAddress (2, SetPeer 8 4321 (new_Ipv6EndPoint 7 80)) \<noteq> 5 \<and>
   GetLocalAddress (2, SetPeer 8 4321 (new_Ipv6EndPoint 7 80)) \<noteq> GetAny \<and>
   GetPeerAddress (2, SetPeer 8 4321 (new_Ipv6EndPoint 7 80)) \<noteq> 6 \<and>
   GetPeerPort (2, SetPeer 8 4321 (new_Ipv6EndPoint 7 80)) \<noteq> 1234 \<and>
   wildcards (2, SetPeer 8 4321 (new_Ipv6EndPoint 7 80)) = 0 \<and>
   wildcards (1, new_Ipv6EndPoint GetAny 80) = 2 \<and>
   Lookup
     (Ipv6EndPointDemux_init\<lparr>m_endPoints :=
        [(1, new_Ipv6EndPoint GetAny 80), (2, SetPeer 8 4321 (new_Ipv6EndPoint 7 80))]\<rparr>)
     5 80 6 1234 None = Inr [(1, new_Ipv6EndPoint GetAny 80)]"
  by (simp add: SimpleLookup_def Lookup_def Lookup_step_def Lookup_retval_def wildcards_def
      new_Ipv6EndPoint_def SetPeer_def GetAny_def GetAllRoutersMulticast_def)


subsection \<open>Allocation at a given address and port\<close>

lemma LookupPortLocal_loop_iff:
  "LookupPortLocal_loop eps prt \<longleftrightarrow> (\<exists>e \<in> set eps. GetLocalPort e = prt)"
  by (induction eps) auto

lemma LookupLocal_loop_iff:
  "LookupLocal_loop eps dev addr prt \<longleftrightarrow>
     (\<exists>e \<in> set eps. GetLocalPort e = prt \<and> GetLocalAddress e = addr \<and>
        GetBoundNetDevice e = dev)"
  by (induction eps) auto

lemma push_back_eq:
  "push_back e s =
     ((new_ptr (m_endPoints s), e), s\<lparr>m_endPoints := m_endPoints s @ [(new_ptr (m_endPoints s), e)]\<rparr>)"
  by (simp add: push_back_def Let_def)

lemma Allocate_device_address_port_conflict:
  "Allocate_device_address_port s dev addr prt =
     (if \<exists>e \<in> set (m_endPoints s). GetLocalAddress e = addr \<and> GetLocalPort e = prt \<and>
           (GetBoundNetDevice e = dev \<or> GetBoundNetDevice e = None)
      then (None, s)
      else (Some (new_ptr (m_endPoints s), new_Ipv6EndPoint addr prt),
            s\<lparr>m_endPoints := m_endPoints s @
                 [(new_ptr (m_endPoints s), new_Ipv6EndPoint addr prt)]\<rparr>))"
proof -
  have cond: "(LookupLocal s dev addr prt \<or> LookupLocal s None addr prt) \<longleftrightarrow>
      (\<exists>e \<in> set (m_endPoints s). GetLocalAddress e = addr \<and> GetLocalPort e = prt \<and>
           (GetBoundNetDevice e = dev \<or> GetBoundNetDevice e = None))"
    unfolding LookupLocal_def LookupLocal_loop_iff by blast
  show ?thesis
  proof (cases "LookupLocal s dev addr prt \<or> LookupLocal s None addr prt")
    case True
    moreover from True cond
    have "\<exists>e \<in> set (m_endPoints s). GetLocalAddress e = addr \<and> GetLocalPort e = prt \<and>
           (GetBoundNetDevice e = dev \<or> GetBoundNetDevice e = None)"
      by blast
    ultimately show ?thesis
      unfolding Allocate_device_address_port_def by (simp only: if_True)
  next
    case False
    moreover from False cond
    have "\<not> (\<exists>e \<in> set (m_endPoints s). GetLocalAddress e = addr \<and> GetLocalPort e = prt \<and>
           (GetBoundNetDevice e = dev \<or> GetBoundNetDevice e = None))"
      by blast
    ultimately show ?thesis
      unfolding Allocate_device_address_port_def push_back_eq
      by (simp only: if_False prod.case)
  qed
qed

text \<open>
  C3: the claim has a new any-device binding refused when a device-specific binding holds
  the same address and port. Both calls of \<open>LookupLocal\<close> then look for an end point
  with no device, find none, and the allocation succeeds.
\<close>

theorem AllocateAt_any_device_beside_bound_counterexample:
  "Allocate_device_address_port
     (Ipv6EndPointDemux_init\<lparr>m_endPoints :=
        [(1, (new_Ipv6EndPoint 5 80)\<lparr>m_boundnetdevice := Some 1\<rparr>)]\<rparr>) None 5 80 =
   (Some (2, new_Ipv6EndPoint 5 80),
    Ipv6EndPointDemux_init\<lparr>m_endPoints :=
        [(1, (new_Ipv6EndPoint 5 80)\<lparr>m_boundnetdevice := Some 1\<rparr>),
         (2, new_Ipv6EndPoint 5 80)]\<rparr>)"
  by (simp add: Allocate_device_address_port_def LookupLocal_def push_back_eq new_ptr_def
      new_Ipv6EndPoint_def)

text \<open>
  C3, as amended: the allocation at (device, address, port) fails, returning null and
  inserting nothing, if and only if some end point has the same local address and port
  and is bound to the caller's device or to none; otherwise it appends the new end
  point. In particular a new device-specific binding is refused beside an any-device
  binding of the same address and port, and a new any-device binding is refused only
  beside another any-device binding.
\<close>

theorem AllocateAt_fails_iff_conflict:
  "(fst (Allocate_device_address_port s dev addr prt) = None \<longleftrightarrow>
      (\<exists>e \<in> set (m_endPoints s). GetLocalAddress e = addr \<and> GetLocalPort e = prt \<and>
         (GetBoundNetDevice e = dev \<or> GetBoundNetDevice e = None))) \<and>
   (fst (Allocate_device_address_port s dev addr prt) = None \<longrightarrow>
      snd (Allocate_device_address_port s dev addr prt) = s) \<and>
   (fst (Allocate_device_address_port s dev addr prt) \<noteq> None \<longrightarrow>
      fst (Allocate_device_address_port s dev addr prt) =
        Some (new_ptr (m_endPoints s), new_Ipv6EndPoint addr prt) \<and>
      snd (Allocate_device_address_port s dev addr prt) =
        s\<lparr>m_endPoints := m_endPoints s @
             [(new_ptr (m_endPoints s), new_Ipv6EndPoint addr prt)]\<rparr>) \<and>
   ((\<exists>e \<in> set (m_endPoints s). GetLocalAddress e = addr \<and> GetLocalPort e = prt \<and>
        GetBoundNetDevice e = None) \<longrightarrow>
      fst (Allocate_device_address_port s (Some d) addr prt) = None) \<and>
   (fst (Allocate_device_address_port s None addr prt) = None \<longleftrightarrow>
      (\<exists>e \<in> set (m_endPoints s). GetLocalAddress e = addr \<and> GetLocalPort e = prt \<and>
         GetBoundNetDevice e = None))"
  unfolding Allocate_device_address_port_conflict by auto

theorem AllocateAt_fails_iff_conflict_witness:
  "(\<exists>e \<in> set [(1 :: nat, new_Ipv6EndPoint 5 80)]. GetLocalAddress e = 5 \<and>
      GetLocalPort e = 80 \<and> GetBoundNetDevice e = None) \<and>
   fst (Allocate_device_address_port
          (Ipv6EndPointDemux_init\<lparr>m_endPoints := [(1, new_Ipv6EndPoint 5 80)]\<rparr>)
          (Some 1) 5 80) = None \<and>
   snd (Allocate_device_address_port
          (Ipv6EndPointDemux_init\<lparr>m_endPoints := [(1, new_Ipv6EndPoint 5 80)]\<rparr>)
          (Some 1) 5 80) =
     Ipv6EndPointDemux_init\<lparr>m_endPoints := [(1, new_Ipv6EndPoint 5 80)]\<rparr> \<and>
   fst (Allocate_device_address_port Ipv6EndPointDemux_init (Some 1) 5 80) =
     Some (1, new_Ipv6EndPoint 5 80)"
proof -
  let ?s = "Ipv6EndPointDemux_init\<lparr>m_endPoints := [(1, new_Ipv6EndPoint 5 80)]\<rparr>"
  have h: "\<exists>e \<in> set (m_endPoints ?s). GetLocalAddress e = 5 \<and> GetLocalPort e = 80 \<and>
      GetBoundNetDevice e = None"
    by (simp add: new_Ipv6EndPoint_def)
  from AllocateAt_fails_iff_conflict [of ?s "Some 1" 5 80 1] h
  have f: "fst (Allocate_device_address_port ?s (Some 1) 5 80) = None"
    by blast
  with AllocateAt_fails_iff_conflict [of ?s "Some 1" 5 80 1]
  have u: "snd (Allocate_device_address_port ?s (Some 1) 5 80) = ?s"
    by blast
  have n: "fst (Allocate_device_address_port Ipv6EndPointDemux_init (Some 1) 5 80) \<noteq> None"
    by (simp add: Allocate_device_address_port_def LookupLocal_def push_back_eq
        Ipv6EndPointDemux_init_def)
  with AllocateAt_fails_iff_conflict [of Ipv6EndPointDemux_init "Some 1" 5 80 1]
  have "fst (Allocate_device_address_port Ipv6EndPointDemux_init (Some 1) 5 80) =
      Some (new_ptr (m_endPoints Ipv6EndPointDemux_init), new_Ipv6EndPoint 5 80)"
    by blast
  then have "fst (Allocate_device_address_port Ipv6EndPointDemux_init (Some 1) 5 80) =
      Some (1, new_Ipv6EndPoint 5 80)"
    by (simp add: new_ptr_def Ipv6EndPointDemux_init_def)
  with h f u show ?thesis
    by simp
qed



subsection \<open>Ephemeral allocation and release\<close>

lemma fold_max_ge: "(a :: nat) \<le> fold max ps a \<and> (\<forall>p \<in> set ps. p \<le> fold max ps a)"
proof (induction ps arbitrary: a)
  case Nil
  show ?case by simp
next
  case (Cons q ps)
  from Cons.IH [of "max q a"] show ?case
    by auto
qed

lemma new_ptr_fresh: "new_ptr eps \<notin> fst ` set eps"
proof
  assume "new_ptr eps \<in> fst ` set eps"
  then have "new_ptr eps \<in> set (map fst eps)"
    by simp
  with fold_max_ge [of 0 "map fst eps"] have "new_ptr eps \<le> fold max (map fst eps) 0"
    by blast
  then show False
    by (simp add: new_ptr_def)
qed

lemma DeAllocate_loop_snoc:
  "q \<notin> fst ` set eps \<Longrightarrow> DeAllocate_loop (eps @ [(q, e)]) (q, e') = eps"
  by (induction eps) auto

lemma AllocateEphemeralPort_loop_Some:
  "AllocateEphemeralPort_loop eps portFirst portLast prt count = Some q \<Longrightarrow>
     \<not> LookupPortLocal_loop eps q \<and> 0 \<le> count \<and>
     (portFirst \<le> portLast \<longrightarrow> portFirst \<le> q \<and> q \<le> portLast)"
proof (induction eps portFirst portLast prt count rule: AllocateEphemeralPort_loop.induct)
  case (1 eps portFirst portLast prt count)
  let ?prt2 = "if prt + 1 < portFirst \<or> prt + 1 > portLast then portFirst else prt + 1"
  from "1.prems" have c: "\<not> count < 0"
    by (subst (asm) AllocateEphemeralPort_loop.simps) (simp split: if_splits)
  have range: "portFirst \<le> portLast \<longrightarrow> portFirst \<le> ?prt2 \<and> ?prt2 \<le> portLast"
    by auto
  show ?case
  proof (cases "LookupPortLocal_loop eps ?prt2")
    case True
    with "1.prems" c
    have "AllocateEphemeralPort_loop eps portFirst portLast ?prt2 (count - 1) = Some q"
      by (subst (asm) AllocateEphemeralPort_loop.simps) (simp add: Let_def)
    from "1.IH" [OF c refl refl True this] c show ?thesis
      by simp
  next
    case False
    with "1.prems" c have "q = ?prt2"
      by (subst (asm) AllocateEphemeralPort_loop.simps) (simp add: Let_def)
    with False c range show ?thesis
      by simp
  qed
qed

lemma Allocate_Some:
  assumes "Allocate s = (Some endPoint, s')"
  shows "\<exists>prt. AllocateEphemeralPort_loop (m_endPoints s) (m_portFirst s) (m_portLast s)
             (m_ephemeral s) (uint (m_portLast s) - uint (m_portFirst s)) = Some prt \<and>
           prt \<noteq> 0 \<and>
           endPoint = (new_ptr (m_endPoints s), new_Ipv6EndPoint GetAny prt) \<and>
           s' = s\<lparr>m_ephemeral := prt, m_endPoints := m_endPoints s @ [endPoint]\<rparr>"
  using assms
  by (auto simp add: Allocate_def AllocateEphemeralPort_def push_back_eq
      split: option.splits if_splits)

lemma Allocate_init:
  "Allocate Ipv6EndPointDemux_init =
     (Some (1, new_Ipv6EndPoint GetAny 49153),
      Ipv6EndPointDemux_init\<lparr>m_ephemeral := 49153,
        m_endPoints := [(1, new_Ipv6EndPoint GetAny 49153)]\<rparr>)"
  unfolding Allocate_def AllocateEphemeralPort_def Ipv6EndPointDemux_init_def
  by (subst AllocateEphemeralPort_loop.simps) (simp add: push_back_eq new_ptr_def)

subsection \<open>Local port 0\<close>

lemma allocate_result:
  assumes "allocate s c = (r, s')"
  shows "case r of
      None \<Rightarrow> m_endPoints s' = m_endPoints s
    | Some e \<Rightarrow> m_endPoints s' = m_endPoints s @ [e] \<and>
        (case requested_port c of None \<Rightarrow> GetLocalPort e \<noteq> 0 | Some prt \<Rightarrow> GetLocalPort e = prt)"
proof (cases c)
  case AllocateAny
  with assms show ?thesis
    by (auto simp add: Allocate_def AllocateEphemeralPort_def push_back_eq new_Ipv6EndPoint_def
        split: option.splits if_splits)
next
  case (AllocateAt_address address)
  with assms show ?thesis
    by (auto simp add: Allocate_address_def AllocateEphemeralPort_def push_back_eq
        new_Ipv6EndPoint_def split: option.splits if_splits)
next
  case (AllocateAt_device_port dev prt)
  with assms show ?thesis
    by (auto simp add: Allocate_device_port_def Allocate_device_address_port_def push_back_eq
        new_Ipv6EndPoint_def split: option.splits if_splits)
next
  case (AllocateAt_device_address_port dev address prt)
  with assms show ?thesis
    by (auto simp add: Allocate_device_address_port_def push_back_eq new_Ipv6EndPoint_def
        split: option.splits if_splits)
next
  case (AllocateFull dev localAddress localPort peerAddress peerPort)
  with assms show ?thesis
    by (auto simp add: Allocate_device_local_peer_def push_back_eq new_Ipv6EndPoint_def
        SetPeer_def split: option.splits if_splits)
qed

lemma allocate_keeps_nonzero:
  assumes "requested_port c \<noteq> Some 0"
    and "\<forall>e \<in> set (m_endPoints s). GetLocalPort e \<noteq> 0"
  shows "\<forall>e \<in> set (m_endPoints (snd (allocate s c))). GetLocalPort e \<noteq> 0"
proof (cases "allocate s c")
  case (Pair r s')
  from allocate_result [OF Pair] assms show ?thesis
    by (cases r; cases "requested_port c") (auto simp add: Pair)
qed

lemma allocations_keep_nonzero:
  "\<forall>c \<in> set cs. requested_port c \<noteq> Some 0 \<Longrightarrow>
   \<forall>e \<in> set (m_endPoints s). GetLocalPort e \<noteq> 0 \<Longrightarrow>
   \<forall>e \<in> set (m_endPoints (allocations s cs)). GetLocalPort e \<noteq> 0"
proof (induction cs arbitrary: s)
  case Nil
  then show ?case by simp
next
  case (Cons c cs)
  from Cons.prems have "\<forall>e \<in> set (m_endPoints (snd (allocate s c))). GetLocalPort e \<noteq> 0"
    by (intro allocate_keeps_nonzero) simp_all
  with Cons.IH [of "snd (allocate s c)"] Cons.prems(1) show ?case
    by simp
qed

lemma Allocate_device_port_after_init:
  "Allocate_device_port
     (Ipv6EndPointDemux_init\<lparr>m_ephemeral := 49153,
        m_endPoints := [(1, new_Ipv6EndPoint GetAny 49153)]\<rparr>) None 80 =
   (Some (2, new_Ipv6EndPoint GetAny 80),
    Ipv6EndPointDemux_init\<lparr>m_ephemeral := 49153,
        m_endPoints := [(1, new_Ipv6EndPoint GetAny 49153), (2, new_Ipv6EndPoint GetAny 80)]\<rparr>)"
  by (simp add: Allocate_device_port_def Allocate_device_address_port_def LookupLocal_def
      push_back_eq new_ptr_def new_Ipv6EndPoint_def Ipv6EndPointDemux_init_def)

text \<open>
  C5: the claim is that no allocation ever yields local port 0. The overloads that take
  a port do not test it: asked for port 0 on a new demultiplexer, the allocation
  succeeds with local port 0.
\<close>

theorem AllocateAt_port_zero_counterexample:
  "Allocate_device_port Ipv6EndPointDemux_init None 0 =
     (Some (1, new_Ipv6EndPoint GetAny 0),
      Ipv6EndPointDemux_init\<lparr>m_endPoints := [(1, new_Ipv6EndPoint GetAny 0)]\<rparr>) \<and>
   GetLocalPort (1, new_Ipv6EndPoint GetAny 0) = 0"
  by (simp add: Allocate_device_port_def Allocate_device_address_port_def LookupLocal_def
      push_back_eq new_ptr_def new_Ipv6EndPoint_def Ipv6EndPointDemux_init_def)

text \<open>
  C5, as amended: an allocation that is not asked for port 0 never returns an end point
  with local port 0 (the ephemeral overloads never do, the others store the port they
  are given), and after any sequence of allocation calls on a new demultiplexer, none
  asking for port 0, no end point of the collection has local port 0.
\<close>

theorem allocations_never_port_zero:
  "(requested_port c \<noteq> Some 0 \<and> allocate s c = (Some e, s') \<longrightarrow>
      GetLocalPort e \<noteq> 0 \<and> e \<in> set (m_endPoints s')) \<and>
   (requested_port c = Some prt \<and> allocate s c = (Some e, s') \<longrightarrow> GetLocalPort e = prt) \<and>
   ((\<forall>c \<in> set cs. requested_port c \<noteq> Some 0) \<longrightarrow>
      (\<forall>e \<in> set (m_endPoints (allocations Ipv6EndPointDemux_init cs)). GetLocalPort e \<noteq> 0))"
proof (intro conjI impI)
  assume h: "requested_port c \<noteq> Some 0 \<and> allocate s c = (Some e, s')"
  with allocate_result [of s c "Some e" s']
  show "GetLocalPort e \<noteq> 0" and "e \<in> set (m_endPoints s')"
    by (cases "requested_port c"; simp)+
next
  assume "requested_port c = Some prt \<and> allocate s c = (Some e, s')"
  with allocate_result [of s c "Some e" s'] show "GetLocalPort e = prt"
    by simp
next
  assume "\<forall>c \<in> set cs. requested_port c \<noteq> Some 0"
  then show "\<forall>e \<in> set (m_endPoints (allocations Ipv6EndPointDemux_init cs)). GetLocalPort e \<noteq> 0"
    by (rule allocations_keep_nonzero) (simp add: Ipv6EndPointDemux_init_def)
qed


theorem allocations_never_port_zero_witness:
  "requested_port AllocateAny \<noteq> Some 0 \<and>
   requested_port (AllocateAt_device_port None 80) \<noteq> Some 0 \<and>
   m_endPoints (allocations Ipv6EndPointDemux_init [AllocateAny, AllocateAt_device_port None 80]) =
     [(1, new_Ipv6EndPoint GetAny 49153), (2, new_Ipv6EndPoint GetAny 80)] \<and>
   allocate Ipv6EndPointDemux_init AllocateAny =
     (Some (1, new_Ipv6EndPoint GetAny 49153),
      Ipv6EndPointDemux_init\<lparr>m_ephemeral := 49153,
        m_endPoints := [(1, new_Ipv6EndPoint GetAny 49153)]\<rparr>) \<and>
   GetLocalPort (1, new_Ipv6EndPoint GetAny 49153) \<noteq> 0 \<and>
   GetLocalPort (2, new_Ipv6EndPoint GetAny 80) \<noteq> 0 \<and>
   GetLocalPort (2, new_Ipv6EndPoint GetAny 80) = 80"
proof -
  let ?cs = "[AllocateAny, AllocateAt_device_port None 80]"
  let ?s1 = "Ipv6EndPointDemux_init\<lparr>m_ephemeral := 49153,
        m_endPoints := [(1, new_Ipv6EndPoint GetAny 49153)]\<rparr>"
  let ?s2 = "Ipv6EndPointDemux_init\<lparr>m_ephemeral := 49153,
        m_endPoints := [(1, new_Ipv6EndPoint GetAny 49153), (2, new_Ipv6EndPoint GetAny 80)]\<rparr>"
  have h: "\<forall>c \<in> set ?cs. requested_port c \<noteq> Some 0"
    by simp
  have a1: "requested_port AllocateAny \<noteq> Some 0 \<and>
      allocate Ipv6EndPointDemux_init AllocateAny = (Some (1, new_Ipv6EndPoint GetAny 49153), ?s1)"
    using Allocate_init by simp
  have a2: "requested_port (AllocateAt_device_port None 80) = Some 80 \<and>
      allocate ?s1 (AllocateAt_device_port None 80) = (Some (2, new_Ipv6EndPoint GetAny 80), ?s2)"
    using Allocate_device_port_after_init by simp
  have run: "m_endPoints (allocations Ipv6EndPointDemux_init ?cs) =
      [(1, new_Ipv6EndPoint GetAny 49153), (2, new_Ipv6EndPoint GetAny 80)]"
    using Allocate_init Allocate_device_port_after_init by simp
  from allocations_never_port_zero [where cs = ?cs] h
  have "\<forall>e \<in> set (m_endPoints (allocations Ipv6EndPointDemux_init ?cs)). GetLocalPort e \<noteq> 0"
    by blast
  then have all: "GetLocalPort (1, new_Ipv6EndPoint GetAny 49153) \<noteq> 0 \<and>
      GetLocalPort (2, new_Ipv6EndPoint GetAny 80) \<noteq> 0"
    unfolding run by simp
  from allocations_never_port_zero
    [where c = AllocateAny and s = Ipv6EndPointDemux_init and s' = ?s1
       and e = "(1, new_Ipv6EndPoint GetAny 49153)"] a1
  have one: "GetLocalPort (1, new_Ipv6EndPoint GetAny 49153) \<noteq> 0"
    by blast
  from allocations_never_port_zero
    [where c = "AllocateAt_device_port None 80" and s = ?s1 and s' = ?s2 and prt = 80
       and e = "(2, new_Ipv6EndPoint GetAny 80)"] a2
  have "GetLocalPort (2, new_Ipv6EndPoint GetAny 80) = 80"
    by blast
  with all one show ?thesis
    using run a1 by simp
qed

subsection \<open>Exhausting the ephemeral range\<close>

lemma unat_plus_of_nat:
  "unat f + i < 65536 \<Longrightarrow> unat (f + of_nat i :: port) = unat f + i"
  by (simp add: unat_word_ariths unat_of_nat)

lemma Allocate_first_try:
  assumes p: "p = (if m_ephemeral t + 1 < m_portFirst t \<or> m_ephemeral t + 1 > m_portLast t
                   then m_portFirst t else m_ephemeral t + 1)"
    and free: "\<not> LookupPortLocal_loop (m_endPoints t) p"
    and le: "m_portFirst t \<le> m_portLast t"
    and nz: "p \<noteq> 0"
  shows "Allocate t =
    (Some (new_ptr (m_endPoints t), new_Ipv6EndPoint GetAny p),
     t\<lparr>m_ephemeral := p,
       m_endPoints := m_endPoints t @ [(new_ptr (m_endPoints t), new_Ipv6EndPoint GetAny p)]\<rparr>)"
proof -
  from le have c: "\<not> uint (m_portLast t) - uint (m_portFirst t) < 0"
    by (simp add: word_le_def)
  have "AllocateEphemeralPort_loop (m_endPoints t) (m_portFirst t) (m_portLast t)
      (m_ephemeral t) (uint (m_portLast t) - uint (m_portFirst t)) = Some p"
    using free c unfolding p by (subst AllocateEphemeralPort_loop.simps) (simp add: Let_def)
  with nz show ?thesis
    by (simp add: Allocate_def AllocateEphemeralPort_def push_back_eq)
qed

lemma scan_state_ports:
  assumes "scan_state f l k t"
  shows "LookupPortLocal_loop (m_endPoints t) q \<longleftrightarrow> (\<exists>i. 1 \<le> i \<and> i \<le> k \<and> q = f + of_nat i)"
proof -
  have "LookupPortLocal_loop (m_endPoints t) q \<longleftrightarrow> q \<in> set (map GetLocalPort (m_endPoints t))"
    by (auto simp add: LookupPortLocal_loop_iff)
  also have "\<dots> \<longleftrightarrow> q \<in> set (map (\<lambda>i. f + of_nat i) [1..<Suc k])"
    using assms by (simp only: scan_state_def)
  also have "\<dots> \<longleftrightarrow> (\<exists>i. 1 \<le> i \<and> i \<le> k \<and> q = f + of_nat i)"
    by (auto simp add: image_iff)
  finally show ?thesis .
qed

lemma scan_state_step:
  assumes st: "scan_state f l k t" and k: "unat f + Suc k \<le> unat l"
  shows "\<exists>e t'. Allocate t = (Some e, t') \<and> GetLocalPort e = f + of_nat (Suc k) \<and>
    scan_state f l (Suc k) t'"
proof -
  let ?p = "f + of_nat (Suc k)"
  have l: "unat l < 65536"
    using unsigned_less [of l] by simp
  with k have "unat f + Suc k < 65536"
    by linarith
  then have up: "unat ?p = unat f + Suc k"
    by (rule unat_plus_of_nat)
  from st have eph: "m_ephemeral t + 1 = ?p" and f: "m_portFirst t = f" and la: "m_portLast t = l"
    by (simp_all add: scan_state_def)
  have inr: "\<not> (?p < f \<or> ?p > l)"
    using up k by (simp add: word_less_nat_alt)
  have free: "\<not> LookupPortLocal_loop (m_endPoints t) ?p"
  proof
    assume "LookupPortLocal_loop (m_endPoints t) ?p"
    with scan_state_ports [OF st] obtain i where i: "1 \<le> i" "i \<le> k" "?p = f + of_nat i"
      by blast
    from i(2) k l have "unat f + i < 65536"
      by linarith
    then have "unat (f + of_nat i) = unat f + i"
      by (rule unat_plus_of_nat)
    moreover from i(3) have "unat ?p = unat (f + of_nat i)"
      by (rule arg_cong)
    ultimately have "unat f + Suc k = unat f + i"
      using up by linarith
    with i(2) show False
      by linarith
  qed
  have nz: "?p \<noteq> 0"
    using up by (metis Zero_not_Suc add_Suc_right unat_0)
  have le: "m_portFirst t \<le> m_portLast t"
    using k by (simp add: f la word_le_nat_alt)
  have p: "?p = (if m_ephemeral t + 1 < m_portFirst t \<or> m_ephemeral t + 1 > m_portLast t
                   then m_portFirst t else m_ephemeral t + 1)"
    using inr by (simp add: eph f la)
  note alloc = Allocate_first_try [OF p free le nz]
  have "map (\<lambda>i. f + of_nat i) [1..<Suc (Suc k)] = map (\<lambda>i. f + of_nat i) [1..<Suc k] @ [?p]"
    by simp
  with st have "scan_state f l (Suc k)
      (t\<lparr>m_ephemeral := ?p,
         m_endPoints := m_endPoints t @ [(new_ptr (m_endPoints t), new_Ipv6EndPoint GetAny ?p)]\<rparr>)"
    by (simp add: scan_state_def new_Ipv6EndPoint_def)
  with alloc show ?thesis
    by (simp add: new_Ipv6EndPoint_def)
qed

lemma scan_state_wrap:
  assumes st: "scan_state f l n t" and n: "unat f + n = unat l" and pos: "0 < f"
  shows "\<exists>e t'. Allocate t = (Some e, t') \<and> GetLocalPort e = f \<and> exhausted f l t'"
proof -
  have l: "unat l < 65536"
    using unsigned_less [of l] by simp
  have idx: "unat (f + of_nat i) = unat f + i" if "i \<le> n" for i
  proof -
    from that n l have "unat f + i < 65536"
      by linarith
    then show ?thesis
      by (rule unat_plus_of_nat)
  qed
  from idx [of n] n have last: "f + of_nat n = l"
    by (simp add: word_unat_eq_iff)
  from st have eph: "m_ephemeral t = l" and f: "m_portFirst t = f" and la: "m_portLast t = l"
    by (simp_all add: scan_state_def last)
  have le: "m_portFirst t \<le> m_portLast t"
    using n by (simp add: f la word_le_nat_alt)
  have out: "l + 1 < f \<or> l + 1 > l"
  proof (cases "l + 1 = 0")
    case True
    with pos show ?thesis by simp
  next
    case False
    then have "unat (l + 1) = Suc (unat l)"
      by (metis add.commute unatSuc)
    then show ?thesis
      by (simp add: word_less_nat_alt)
  qed
  then have p: "f = (if m_ephemeral t + 1 < m_portFirst t \<or> m_ephemeral t + 1 > m_portLast t
                   then m_portFirst t else m_ephemeral t + 1)"
    by (simp add: eph f la)
  have free: "\<not> LookupPortLocal_loop (m_endPoints t) f"
  proof
    assume "LookupPortLocal_loop (m_endPoints t) f"
    with scan_state_ports [OF st] obtain i where i: "1 \<le> i" "i \<le> n" "f = f + of_nat i"
      by blast
    from i(3) have "unat f = unat (f + of_nat i)"
      by (rule arg_cong)
    with idx [OF i(2)] have "unat f = unat f + i"
      by linarith
    with i(1) show False
      by linarith
  qed
  from pos have nz: "f \<noteq> 0"
    by auto
  note alloc = Allocate_first_try [OF p free le nz]
  let ?t' = "t\<lparr>m_ephemeral := f,
       m_endPoints := m_endPoints t @ [(new_ptr (m_endPoints t), new_Ipv6EndPoint GetAny f)]\<rparr>"
  have "LookupPortLocal_loop (m_endPoints ?t') q" if q: "f \<le> q \<and> q \<le> l" for q
  proof (cases "q = f")
    case True
    then show ?thesis
      by (simp add: LookupPortLocal_loop_iff new_Ipv6EndPoint_def)
  next
    case False
    let ?i = "unat q - unat f"
    from q False have i: "1 \<le> ?i" "?i \<le> n"
      using n by (auto simp add: word_le_nat_alt word_unat_eq_iff)
    from idx [OF i(2)] q have "q = f + of_nat ?i"
      by (simp add: word_unat_eq_iff word_le_nat_alt)
    with i scan_state_ports [OF st, of q] have "LookupPortLocal_loop (m_endPoints t) q"
      by blast
    then show ?thesis
      by (auto simp add: LookupPortLocal_loop_iff)
  qed
  then have "exhausted f l ?t'"
    by (simp add: exhausted_def f la)
  with alloc show ?thesis
    by (simp add: new_Ipv6EndPoint_def)
qed

lemma AllocateEphemeralPort_loop_exhausted:
  assumes "\<forall>q. f \<le> q \<and> q \<le> l \<longrightarrow> LookupPortLocal_loop eps q" and "f \<le> l"
  shows "AllocateEphemeralPort_loop eps f l p c = None"
  using assms
proof (induction eps f l p c rule: AllocateEphemeralPort_loop.induct)
  case (1 eps portFirst portLast prt count)
  let ?prt2 = "if prt + 1 < portFirst \<or> prt + 1 > portLast then portFirst else prt + 1"
  show ?case
  proof (cases "count < 0")
    case True
    then show ?thesis
      by (subst AllocateEphemeralPort_loop.simps) simp
  next
    case False
    from "1.prems"(2) have "portFirst \<le> ?prt2 \<and> ?prt2 \<le> portLast"
      by auto
    with "1.prems"(1) have used: "LookupPortLocal_loop eps ?prt2"
      by blast
    from "1.IH" [OF False refl refl used "1.prems"] used False show ?thesis
      by (subst AllocateEphemeralPort_loop.simps) (simp add: Let_def)
  qed
qed

lemma exhausted_Allocate:
  assumes "exhausted f l t" and "f \<le> l"
  shows "Allocate t = (None, t)"
proof -
  from assms have "AllocateEphemeralPort_loop (m_endPoints t) (m_portFirst t) (m_portLast t)
      (m_ephemeral t) (uint (m_portLast t) - uint (m_portFirst t)) = None"
    by (intro AllocateEphemeralPort_loop_exhausted) (simp_all add: exhausted_def)
  then show ?thesis
    by (simp add: Allocate_def AllocateEphemeralPort_def)
qed


lemma Allocate_times_scan:
  "scan_state f l k t \<Longrightarrow> unat f + k + m \<le> unat l \<Longrightarrow>
   map (map_option GetLocalPort) (fst (Allocate_times m t)) =
     map (\<lambda>i. Some (f + of_nat i)) [Suc k..<Suc (k + m)] \<and>
   scan_state f l (k + m) (snd (Allocate_times m t))"
proof (induction m arbitrary: k t)
  case 0
  then show ?case by simp
next
  case (Suc m)
  from Suc.prems(2) have "unat f + Suc k \<le> unat l"
    by linarith
  from scan_state_step [OF Suc.prems(1) this] obtain e t' where
    a: "Allocate t = (Some e, t')" and p: "GetLocalPort e = f + of_nat (Suc k)"
    and st: "scan_state f l (Suc k) t'"
    by blast
  from Suc.prems(2) have "unat f + Suc k + m \<le> unat l"
    by linarith
  note IH = Suc.IH [OF st this]
  have "[Suc k..<Suc (k + Suc m)] = Suc k # [Suc (Suc k)..<Suc (Suc k + m)]"
    by (simp add: upt_conv_Cons)
  with IH a p show ?case
    by (simp add: split_beta)
qed

lemma Allocate_times_add:
  "Allocate_times (m + n) s =
     (case Allocate_times m s of (rs, s1) \<Rightarrow>
      case Allocate_times n s1 of (rs', s2) \<Rightarrow> (rs @ rs', s2))"
  by (induction m arbitrary: s) (simp_all add: split_beta)

lemma Allocate_times_full_range:
  assumes fresh: "m_endPoints s = []" "m_ephemeral s = m_portFirst s"
    and pos: "0 < m_portFirst s" and le: "m_portFirst s \<le> m_portLast s"
    and n: "n = unat (m_portLast s) - unat (m_portFirst s)"
  shows "map (map_option GetLocalPort) (fst (Allocate_times (n + 2) s)) =
     map (\<lambda>i. Some (m_portFirst s + of_nat i)) [1..<Suc n] @ [Some (m_portFirst s), None]"
proof -
  let ?f = "m_portFirst s" and ?l = "m_portLast s"
  from le n have fn: "unat ?f + n = unat ?l"
    by (simp add: word_le_nat_alt)
  have st0: "scan_state ?f ?l 0 s"
    by (simp add: scan_state_def fresh)
  from Allocate_times_scan [OF st0, of n] fn
  have rs: "map (map_option GetLocalPort) (fst (Allocate_times n s)) =
      map (\<lambda>i. Some (?f + of_nat i)) [1..<Suc n]"
    and st: "scan_state ?f ?l n (snd (Allocate_times n s))"
    by simp_all
  from scan_state_wrap [OF st fn pos] obtain e t' where
    a: "Allocate (snd (Allocate_times n s)) = (Some e, t')" and p: "GetLocalPort e = ?f"
    and ex: "exhausted ?f ?l t'"
    by blast
  note none = exhausted_Allocate [OF ex le]
  have two: "Allocate_times 2 (snd (Allocate_times n s)) = ([Some e, None], t')"
    using a none by (simp add: numeral_2_eq_2)
  show ?thesis
    unfolding Allocate_times_add
    using rs two p by (simp add: split_beta)
qed


lemma empty_range_Allocate:
  assumes "\<not> m_portFirst s \<le> m_portLast s"
  shows "Allocate s = (None, s)"
proof -
  from assms have "uint (m_portLast s) - uint (m_portFirst s) < 0"
    by (simp add: word_le_def)
  then have "AllocateEphemeralPort_loop (m_endPoints s) (m_portFirst s) (m_portLast s)
      (m_ephemeral s) (uint (m_portLast s) - uint (m_portFirst s)) = None"
    by (subst AllocateEphemeralPort_loop.simps) simp
  then show ?thesis
    by (simp add: Allocate_def AllocateEphemeralPort_def)
qed

lemma range_ports_inj:
  assumes "unat f + n = unat (l :: port)"
  shows "inj_on (\<lambda>i. f + of_nat i :: port) {0..n}"
proof (rule inj_onI)
  fix i j
  assume i: "i \<in> {0..n}" and j: "j \<in> {0..n}" and eq: "f + of_nat i = f + of_nat j"
  have l: "unat l < 65536"
    using unsigned_less [of l] by simp
  from i assms l have "unat f + i < 65536"
    by simp
  then have ui: "unat (f + of_nat i) = unat f + i"
    by (rule unat_plus_of_nat)
  from j assms l have "unat f + j < 65536"
    by simp
  then have uj: "unat (f + of_nat j) = unat f + j"
    by (rule unat_plus_of_nat)
  from eq have "unat (f + of_nat i) = unat (f + of_nat j)"
    by (rule arg_cong)
  with ui uj show "i = j"
    by linarith
qed

text \<open>
  C4: on a new demultiplexer (no end point, the scan standing at the first port of the
  range) whose ephemeral range [first, last] has N ports, the first N calls of
  \<open>Allocate()\<close> succeed, the k-th with port \<open>first + (k mod N)\<close>, which are N
  distinct ports, and call N + 1 fails. The range starts above port 0, as the
  constructor's 49152..65535 does: port 0 is the wildcard and what the scan returns for
  failure. With the range [49152, 49154] the calls return 49153, 49154, 49152 and then
  fail; with the constructor's range, N is 16384.
\<close>

theorem Allocate_until_exhausted:
  assumes fresh: "m_endPoints s = [] \<and> m_ephemeral s = m_portFirst s"
    and pos: "0 < m_portFirst s"
  shows "map (map_option GetLocalPort) (fst (Allocate_times (Suc (range_size s)) s)) =
      map (\<lambda>k. Some (m_portFirst s + of_nat (k mod range_size s))) [1..<Suc (range_size s)] @
      [None] \<and>
    distinct (map (\<lambda>k. m_portFirst s + of_nat (k mod range_size s)) [1..<Suc (range_size s)])"
proof (cases "m_portFirst s \<le> m_portLast s")
  case False
  then have "range_size s = 0"
    by (simp add: range_size_def)
  with empty_range_Allocate [OF False] show ?thesis
    by simp
next
  case le: True
  let ?f = "m_portFirst s"
  define n where "n = unat (m_portLast s) - unat ?f"
  from le have N: "range_size s = Suc n"
    by (simp add: range_size_def n_def)
  from le have fn: "unat ?f + n = unat (m_portLast s)"
    by (simp add: n_def word_le_nat_alt)
  have upt: "[1..<Suc (Suc n)] = [1..<Suc n] @ [Suc n]"
    by simp
  have small: "map (\<lambda>k. g (k mod Suc n)) [1..<Suc n] = map g [1..<Suc n]" for g :: "nat \<Rightarrow> 'b"
  proof (rule map_cong)
    fix k
    assume "k \<in> set [1..<Suc n]"
    then have "k < Suc n"
      by auto
    then have "k mod Suc n = k"
      by (rule mod_less)
    then show "g (k mod Suc n) = g k"
      by simp
  qed simp
  have ports: "map (\<lambda>k. g (k mod Suc n)) [1..<Suc (Suc n)] = map g [1..<Suc n] @ [g 0]"
    for g :: "nat \<Rightarrow> 'b"
    unfolding upt map_append small by simp
  from fresh have fr: "m_endPoints s = []" "m_ephemeral s = ?f"
    by simp_all
  from Allocate_times_full_range [OF fr pos le n_def]
  have run: "map (map_option GetLocalPort) (fst (Allocate_times (Suc (Suc n)) s)) =
      map (\<lambda>i. Some (?f + of_nat i)) [1..<Suc n] @ [Some ?f, None]"
    by simp
  have first: "?thesis \<longleftrightarrow>
      map (map_option GetLocalPort) (fst (Allocate_times (Suc (Suc n)) s)) =
        map (\<lambda>i. Some (?f + of_nat i)) [1..<Suc n] @ [Some ?f] @ [None] \<and>
      distinct (map (\<lambda>i. ?f + of_nat i) [1..<Suc n] @ [?f])"
    unfolding N ports [of "\<lambda>i. Some (?f + of_nat i)"] ports [of "\<lambda>i. ?f + of_nat i"]
    by simp
  note inj = range_ports_inj [OF fn]
  have "inj_on (\<lambda>i. ?f + of_nat i) (set [1..<Suc n])"
    by (rule inj_on_subset [OF inj]) auto
  then have d: "distinct (map (\<lambda>i. ?f + of_nat i) [1..<Suc n])"
    by (simp add: distinct_map)
  have "?f \<notin> set (map (\<lambda>i. ?f + of_nat i) [1..<Suc n])"
  proof
    assume "?f \<in> set (map (\<lambda>i. ?f + of_nat i) [1..<Suc n])"
    then obtain i where i: "1 \<le> i" "i \<le> n" "?f = ?f + of_nat i"
      by auto
    from i(3) have "?f + of_nat 0 = ?f + of_nat i"
      by simp
    from inj_onD [OF inj this] i(2) have "0 = i"
      by simp
    with i(1) show False
      by simp
  qed
  with d run show ?thesis
    unfolding first by simp
qed


theorem Allocate_until_exhausted_witness:
  "(m_endPoints \<lparr>m_endPoints = [], m_ephemeral = 49152, m_portFirst = 49152, m_portLast = 49154\<rparr>
     = [] \<and>
   range_size \<lparr>m_endPoints = [], m_ephemeral = 49152, m_portFirst = 49152, m_portLast = 49154\<rparr>
     = 3 \<and>
   map (map_option GetLocalPort)
     (fst (Allocate_times 4
        \<lparr>m_endPoints = [], m_ephemeral = 49152, m_portFirst = 49152, m_portLast = 49154\<rparr>)) =
     [Some 49153, Some 49154, Some 49152, None] \<and>
   distinct [49153, 49154, 49152 :: port]) \<and>
   range_size Ipv6EndPointDemux_init = 16384 \<and>
   map (map_option GetLocalPort) (fst (Allocate_times 16385 Ipv6EndPointDemux_init)) =
     map (\<lambda>k. Some (49152 + of_nat (k mod 16384))) [1..<16385] @ [None]"
proof -
  let ?s = "\<lparr>m_endPoints = [], m_ephemeral = 49152, m_portFirst = 49152, m_portLast = 49154\<rparr>"
  have fresh: "m_endPoints ?s = [] \<and> m_ephemeral ?s = m_portFirst ?s"
    by simp
  have pos: "0 < m_portFirst ?s"
    by simp
  have size: "range_size ?s = 3"
    by (simp add: range_size_def)
  have upt: "[Suc 0..<4] = [Suc 0, 2, 3]"
    by (simp add: upt_rec)
  from Allocate_until_exhausted [OF fresh pos]
  have "map (map_option GetLocalPort) (fst (Allocate_times 4 ?s)) =
      [Some 49153, Some 49154, Some 49152, None] \<and> distinct [49153, 49154, 49152 :: port]"
    unfolding size by (simp add: upt)
  with size have small: "m_endPoints ?s = [] \<and> range_size ?s = 3 \<and>
      map (map_option GetLocalPort) (fst (Allocate_times 4 ?s)) =
        [Some 49153, Some 49154, Some 49152, None] \<and>
      distinct [49153, 49154, 49152 :: port]"
    by simp
  have fresh0: "m_endPoints Ipv6EndPointDemux_init = [] \<and>
      m_ephemeral Ipv6EndPointDemux_init = m_portFirst Ipv6EndPointDemux_init"
    by (simp add: Ipv6EndPointDemux_init_def)
  have pos0: "0 < m_portFirst Ipv6EndPointDemux_init"
    by (simp add: Ipv6EndPointDemux_init_def)
  have size0: "range_size Ipv6EndPointDemux_init = 16384"
    by (simp add: range_size_def Ipv6EndPointDemux_init_def)
  have f: "m_portFirst Ipv6EndPointDemux_init = 49152"
    by (simp add: Ipv6EndPointDemux_init_def)
  have suc: "Suc 16384 = 16385"
    by (simp only: Suc_numeral add_num_simps)
  from Allocate_until_exhausted [OF fresh0 pos0]
  have "map (map_option GetLocalPort) (fst (Allocate_times 16385 Ipv6EndPointDemux_init)) =
     map (\<lambda>k. Some (49152 + of_nat (k mod 16384))) [1..<16385] @ [None]"
    unfolding size0 f suc by (rule conjunct1)
  with size0 have big: "range_size Ipv6EndPointDemux_init = 16384 \<and>
   map (map_option GetLocalPort) (fst (Allocate_times 16385 Ipv6EndPointDemux_init)) =
     map (\<lambda>k. Some (49152 + of_nat (k mod 16384))) [1..<16385] @ [None]"
    by (rule conjI)
  from small big show ?thesis
    by (rule conjI)
qed

subsection \<open>Release and reuse of an ephemeral port\<close>

text \<open>
  Inside the range the scan steps from a port to the next one and from the last port to
  the first. When one port of the range is free and every other one is taken, the scan
  comes to the free port from any start in the range, with enough rounds left.
\<close>

lemma unat_succ_below:
  assumes "unat (x :: port) < unat (l :: port)"
  shows "unat (x + 1) = Suc (unat x)"
proof -
  have "unat l < 65536"
    using unsigned_less [of l] by simp
  with assms have "unat x + 1 < 65536"
    by linarith
  from unat_plus_of_nat [OF this] show ?thesis
    by simp
qed

lemma scan_next_in_range:
  assumes x: "f \<le> x" "x \<le> (l :: port)"
  shows "(if x + 1 < f \<or> x + 1 > l then f else x + 1) = (if x = l then f else x + 1)"
proof (cases "x = l")
  case True
  show ?thesis
  proof (cases "l + 1 = 0")
    case z: True
    show ?thesis
      by (cases "f = 0") (simp_all add: True z word_gt_0)
  next
    case False
    then have "unat (l + 1) = Suc (unat l)"
      by (metis add.commute unatSuc)
    then have "l + 1 > l"
      by (simp add: word_less_nat_alt)
    then show ?thesis
      by (simp add: True)
  qed
next
  case False
  with x(2) have lt: "unat x < unat l"
    by (simp add: word_le_nat_alt word_unat_eq_iff)
  from unat_succ_below [OF lt] x lt have "\<not> (x + 1 < f \<or> x + 1 > l)"
    by (simp add: word_less_nat_alt word_le_nat_alt)
  with False show ?thesis
    by simp
qed

lemma scan_reaches_free_port:
  assumes p: "f \<le> p" "p \<le> l"
    and free: "\<not> LookupPortLocal_loop eps p"
    and held: "\<forall>q. f \<le> q \<and> q \<le> l \<and> q \<noteq> p \<longrightarrow> LookupPortLocal_loop eps q"
  shows "f \<le> x \<Longrightarrow> x \<le> l \<Longrightarrow>
    d = (if unat x < unat p then unat p - unat x
         else unat p + Suc (unat l - unat f) - unat x) \<Longrightarrow>
    int d - 1 \<le> c \<Longrightarrow>
    AllocateEphemeralPort_loop eps f l x c = Some p"
proof (induction d arbitrary: x c rule: less_induct)
  case (less d)
  let ?n = "if x = l then f else x + 1"
  from p less.prems(1,2) have uf: "unat f \<le> unat p" "unat p \<le> unat l"
    "unat f \<le> unat x" "unat x \<le> unat l"
    by (simp_all add: word_le_nat_alt)
  from less.prems(3) uf have dpos: "1 \<le> d"
    by (simp split: if_splits)
  with less.prems(4) have c: "\<not> c < 0"
    by linarith
  have nx: "(if x + 1 < f \<or> x + 1 > l then f else x + 1) = ?n"
    using less.prems(1,2) by (rule scan_next_in_range)
  have un: "unat ?n = (if x = l then unat f else Suc (unat x))"
  proof (cases "x = l")
    case True
    then show ?thesis by simp
  next
    case False
    with uf(4) have "unat x < unat l"
      by (simp add: word_unat_eq_iff)
    from unat_succ_below [OF this] False show ?thesis
      by simp
  qed
  have xl: "x = l \<longleftrightarrow> unat x = unat l"
    by (simp add: word_unat_eq_iff)
  have np: "?n = p \<longleftrightarrow> unat ?n = unat p"
    by (simp add: word_unat_eq_iff)
  have nrange: "f \<le> ?n \<and> ?n \<le> l"
    unfolding word_le_nat_alt un using uf xl by (simp; linarith)
  show ?case
  proof (cases "?n = p")
    case True
    with free c show ?thesis
      by (subst AllocateEphemeralPort_loop.simps) (simp add: nx Let_def del: One_nat_def)
  next
    case False
    with held nrange have used: "LookupPortLocal_loop eps ?n"
      by blast
    from False np un have ne: "(if x = l then unat f else Suc (unat x)) \<noteq> unat p"
      by simp
    define d' where "d' = (if unat ?n < unat p then unat p - unat ?n
         else unat p + Suc (unat l - unat f) - unat ?n)"
    have d': "d' = d - 1 \<and> 2 \<le> d"
      unfolding d'_def un less.prems(3) using ne uf xl
      by (simp split: if_splits; linarith)
    then have "d' < d" and "int d' - 1 \<le> c - 1"
      using less.prems(4) by linarith+
    from less.IH [OF this(1) _ _ d'_def this(2)] nrange
    have "AllocateEphemeralPort_loop eps f l ?n (c - 1) = Some p"
      by blast
    with used c show ?thesis
      by (subst AllocateEphemeralPort_loop.simps) (simp add: nx Let_def del: One_nat_def)
  qed
qed


lemma Allocate_last_port_of_three:
  "Allocate \<lparr>m_endPoints = [(1, new_Ipv6EndPoint GetAny 49153), (2, new_Ipv6EndPoint GetAny 49154)],
      m_ephemeral = 49154, m_portFirst = 49152, m_portLast = 49154\<rparr> =
   (Some (3, new_Ipv6EndPoint GetAny 49152),
    \<lparr>m_endPoints = [(1, new_Ipv6EndPoint GetAny 49153), (2, new_Ipv6EndPoint GetAny 49154),
        (3, new_Ipv6EndPoint GetAny 49152)],
      m_ephemeral = 49152, m_portFirst = 49152, m_portLast = 49154\<rparr>)"
  unfolding Allocate_def AllocateEphemeralPort_def
  by (subst AllocateEphemeralPort_loop.simps)
    (simp add: push_back_eq new_ptr_def new_Ipv6EndPoint_def)

lemma ports_49153_49154:
  assumes "49152 \<le> q" and "q \<le> 49154" and "q \<noteq> (49152 :: port)"
  shows "q = 49153 \<or> q = 49154"
proof -
  from assms have "49152 \<le> unat q" and "unat q \<le> 49154" and "unat q \<noteq> 49152"
    by (simp_all add: word_le_nat_alt word_unat_eq_iff)
  then have "unat q = 49153 \<or> unat q = 49154"
    by linarith
  then show ?thesis
    by (simp add: word_unat_eq_iff)
qed

text \<open>
  C9: in every state, when \<open>Allocate()\<close> returns an end point with port p and that end
  point is released at once, the collection is what it was before the allocation and
  none of its end points has local port p. The port can be assigned again: from the state
  left, when every other port of the range is taken, the next \<open>Allocate()\<close> scans the
  range round, wraps back to p and returns an end point with port p.
\<close>

theorem Allocate_DeAllocate_frees_port:
  assumes "Allocate s = (Some endPoint, s')"
  shows "m_endPoints (DeAllocate s' endPoint) = m_endPoints s \<and>
    (\<forall>e \<in> set (m_endPoints (DeAllocate s' endPoint)).
       GetLocalPort e \<noteq> GetLocalPort endPoint) \<and>
    ((\<forall>q. m_portFirst s \<le> q \<and> q \<le> m_portLast s \<and> q \<noteq> GetLocalPort endPoint \<longrightarrow>
          (\<exists>e \<in> set (m_endPoints (DeAllocate s' endPoint)). GetLocalPort e = q)) \<longrightarrow>
     map_option GetLocalPort (fst (Allocate (DeAllocate s' endPoint))) =
       Some (GetLocalPort endPoint))"
proof -
  let ?f = "m_portFirst s" and ?l = "m_portLast s" and ?eps = "m_endPoints s"
  let ?t = "DeAllocate s' endPoint"
  from Allocate_Some [OF assms] obtain prt where
    loop: "AllocateEphemeralPort_loop ?eps ?f ?l (m_ephemeral s) (uint ?l - uint ?f) = Some prt"
    and nz: "prt \<noteq> 0"
    and e: "endPoint = (new_ptr ?eps, new_Ipv6EndPoint GetAny prt)"
    and s': "s' = s\<lparr>m_ephemeral := prt, m_endPoints := ?eps @ [endPoint]\<rparr>"
    by blast
  from AllocateEphemeralPort_loop_Some [OF loop]
  have free: "\<not> LookupPortLocal_loop ?eps prt"
    and cnt: "0 \<le> uint ?l - uint ?f"
    and range: "?f \<le> ?l \<longrightarrow> ?f \<le> prt \<and> prt \<le> ?l"
    by simp_all
  from cnt have le: "?f \<le> ?l"
    by (simp add: word_le_def)
  with range have inr: "?f \<le> prt" "prt \<le> ?l"
    by simp_all
  have p: "GetLocalPort endPoint = prt"
    by (simp add: e new_Ipv6EndPoint_def)
  have restored: "m_endPoints ?t = ?eps"
    using new_ptr_fresh [of ?eps]
    by (simp add: DeAllocate_def s' e DeAllocate_loop_snoc)
  have t: "m_portFirst ?t = ?f" "m_portLast ?t = ?l" "m_ephemeral ?t = prt"
    by (simp_all add: DeAllocate_def s')
  from free have none: "\<forall>e \<in> set ?eps. GetLocalPort e \<noteq> prt"
    by (simp add: LookupPortLocal_loop_iff)
  have again: "map_option GetLocalPort (fst (Allocate ?t)) = Some prt"
    if others: "\<forall>q. ?f \<le> q \<and> q \<le> ?l \<and> q \<noteq> prt \<longrightarrow> (\<exists>e \<in> set ?eps. GetLocalPort e = q)"
  proof -
    from others have held: "\<forall>q. ?f \<le> q \<and> q \<le> ?l \<and> q \<noteq> prt \<longrightarrow> LookupPortLocal_loop ?eps q"
      by (simp add: LookupPortLocal_loop_iff)
    from le have "unat ?f \<le> unat ?l"
      by (simp add: word_le_nat_alt)
    moreover have "uint ?l = int (unat ?l)" and "uint ?f = int (unat ?f)"
      by (rule uint_nat)+
    ultimately have c: "int (Suc (unat ?l - unat ?f)) - 1 \<le> uint ?l - uint ?f"
      by linarith
    have d: "Suc (unat ?l - unat ?f) =
        (if unat prt < unat prt then unat prt - unat prt
         else unat prt + Suc (unat ?l - unat ?f) - unat prt)"
      by simp
    from scan_reaches_free_port [OF inr free held inr d c]
    have "AllocateEphemeralPort_loop (m_endPoints ?t) (m_portFirst ?t) (m_portLast ?t)
        (m_ephemeral ?t) (uint (m_portLast ?t) - uint (m_portFirst ?t)) = Some prt"
      by (simp only: restored t)
    with nz show ?thesis
      by (simp add: Allocate_def AllocateEphemeralPort_def push_back_eq new_Ipv6EndPoint_def)
  qed
  from none again show ?thesis
    unfolding restored p by blast
qed


theorem Allocate_DeAllocate_frees_port_witness:
  "Allocate \<lparr>m_endPoints = [(1, new_Ipv6EndPoint GetAny 49153), (2, new_Ipv6EndPoint GetAny 49154)],
      m_ephemeral = 49154, m_portFirst = 49152, m_portLast = 49154\<rparr> =
   (Some (3, new_Ipv6EndPoint GetAny 49152),
    \<lparr>m_endPoints = [(1, new_Ipv6EndPoint GetAny 49153), (2, new_Ipv6EndPoint GetAny 49154),
        (3, new_Ipv6EndPoint GetAny 49152)],
      m_ephemeral = 49152, m_portFirst = 49152, m_portLast = 49154\<rparr>) \<and>
   m_endPoints (DeAllocate
     \<lparr>m_endPoints = [(1, new_Ipv6EndPoint GetAny 49153), (2, new_Ipv6EndPoint GetAny 49154),
        (3, new_Ipv6EndPoint GetAny 49152)],
      m_ephemeral = 49152, m_portFirst = 49152, m_portLast = 49154\<rparr>
     (3, new_Ipv6EndPoint GetAny 49152)) =
     [(1, new_Ipv6EndPoint GetAny 49153), (2, new_Ipv6EndPoint GetAny 49154)] \<and>
   GetLocalPort (1, new_Ipv6EndPoint GetAny 49153) \<noteq> 49152 \<and>
   GetLocalPort (2, new_Ipv6EndPoint GetAny 49154) \<noteq> 49152 \<and>
   map_option GetLocalPort (fst (Allocate (DeAllocate
     \<lparr>m_endPoints = [(1, new_Ipv6EndPoint GetAny 49153), (2, new_Ipv6EndPoint GetAny 49154),
        (3, new_Ipv6EndPoint GetAny 49152)],
      m_ephemeral = 49152, m_portFirst = 49152, m_portLast = 49154\<rparr>
     (3, new_Ipv6EndPoint GetAny 49152)))) = Some 49152"
proof -
  let ?eps = "[(1 :: nat, new_Ipv6EndPoint GetAny 49153), (2, new_Ipv6EndPoint GetAny 49154)]"
  let ?e = "(3 :: nat, new_Ipv6EndPoint GetAny 49152)"
  let ?s = "\<lparr>m_endPoints = ?eps, m_ephemeral = 49154, m_portFirst = 49152, m_portLast = 49154\<rparr>"
  let ?s' = "\<lparr>m_endPoints = ?eps @ [?e], m_ephemeral = 49152, m_portFirst = 49152,
      m_portLast = 49154\<rparr>"
  have a: "Allocate ?s = (Some ?e, ?s')"
    using Allocate_last_port_of_three by simp
  note rt = Allocate_DeAllocate_frees_port [OF a]
  have p: "GetLocalPort ?e = 49152"
    by (simp add: new_Ipv6EndPoint_def)
  from rt have r: "m_endPoints (DeAllocate ?s' ?e) = ?eps"
    by simp
  from rt have "\<forall>e \<in> set (m_endPoints (DeAllocate ?s' ?e)). GetLocalPort e \<noteq> GetLocalPort ?e"
    by blast
  then have n: "GetLocalPort (1, new_Ipv6EndPoint GetAny 49153) \<noteq> 49152 \<and>
      GetLocalPort (2, new_Ipv6EndPoint GetAny 49154) \<noteq> 49152"
    unfolding r p by simp
  have others: "\<forall>q. m_portFirst ?s \<le> q \<and> q \<le> m_portLast ?s \<and> q \<noteq> GetLocalPort ?e \<longrightarrow>
      (\<exists>e \<in> set (m_endPoints (DeAllocate ?s' ?e)). GetLocalPort e = q)"
    unfolding r p using ports_49153_49154 by (auto simp add: new_Ipv6EndPoint_def)
  with rt have "map_option GetLocalPort (fst (Allocate (DeAllocate ?s' ?e))) = Some (GetLocalPort ?e)"
    by blast
  then have "map_option GetLocalPort (fst (Allocate (DeAllocate ?s' ?e))) = Some 49152"
    unfolding p .
  with a r n show ?thesis
    by simp
qed

end
